theory Spec2Isabelle
  imports Main "HOL-Library.Word" "HOL-Library.AList"
begin

unbundle bit_operations_syntax

section \<open>Shift arithmetic\<close>

text \<open>
  Python integers are unbounded, so ids and offsets are \<^typ>\<open>int\<close>.
  \<^verbatim>\<open>shift_id\<close> follows the two nested conditionals of the source; the final
  \<^verbatim>\<open>return current_id\<close> is the value of both inner else branches.
\<close>

definition shift_id :: "int \<Rightarrow> int \<Rightarrow> int" where
  "shift_id current_id offset =
     (let abs_offset = \<bar>offset\<bar> in
      if offset > 0 then
        (if current_id < abs_offset then current_id + offset else current_id)
      else
        (if current_id \<ge> abs_offset then current_id + offset else current_id))"

section \<open>The POSIX ACL blob codec\<close>

text \<open>
  A blob is a Python \<^verbatim>\<open>bytes\<close> object: a list of 8-bit words. The two exceptions the
  program handles are \<^verbatim>\<open>struct.error\<close> and \<^verbatim>\<open>OSError\<close> (of which
  \<^verbatim>\<open>PermissionError\<close> is a subclass). \<^verbatim>\<open>OverflowError\<close> is the exception
  \<^verbatim>\<open>os.lchown\<close> raises for an id outside the range of the platform's id type; the
  program has no handler for it.
\<close>

type_synonym byte = "8 word"
type_synonym bytes = "byte list"

datatype py_error = StructError | OSError | OverflowError

definition ACL_EA_VERSION :: int where "ACL_EA_VERSION = 2"
definition ACL_TAG_USER :: int where "ACL_TAG_USER = 2"
definition ACL_TAG_GROUP :: int where "ACL_TAG_GROUP = 8"
definition ACL_ENTRY_SIZE :: nat where "ACL_ENTRY_SIZE = 8"
definition ACL_HEADER_SIZE :: nat where "ACL_HEADER_SIZE = 4"

text \<open>
  The \<^verbatim>\<open>struct\<close> formats \<^verbatim>\<open><I\<close> and \<^verbatim>\<open><HHI\<close> are little-endian without
  padding: 4 bytes, and 2 + 2 + 4 bytes. \<open>le_int\<close> reads an unsigned little-endian
  integer, \<open>le_bytes n\<close> writes the \<open>n\<close> low bytes of one.
\<close>

fun le_int :: "bytes \<Rightarrow> int" where
  "le_int [] = 0"
| "le_int (b # bs) = uint b + 256 * le_int bs"

fun le_bytes :: "nat \<Rightarrow> int \<Rightarrow> bytes" where
  "le_bytes 0 v = []"
| "le_bytes (Suc n) v = word_of_int v # le_bytes n (v div 256)"

text \<open>
  \<^verbatim>\<open>struct.unpack\<close> raises \<^verbatim>\<open>struct.error\<close> unless the buffer has exactly the size
  of the format; \<^verbatim>\<open>struct.unpack_from\<close> raises it when fewer bytes than the format
  needs remain at the position; \<^verbatim>\<open>struct.pack\<close> raises it when an argument is
  outside the range of its field (\<open>H\<close>: below \<open>2^16\<close>, \<open>I\<close>: below \<open>2^32\<close>,
  neither negative).
\<close>

definition struct_unpack_I :: "bytes \<Rightarrow> py_error + int" where
  "struct_unpack_I buf = (if length buf \<noteq> 4 then Inl StructError else Inr (le_int buf))"

definition struct_unpack_from_HHI :: "bytes \<Rightarrow> nat \<Rightarrow> py_error + int \<times> int \<times> int" where
  "struct_unpack_from_HHI buf pos =
     (if length buf < pos + 8 then Inl StructError
      else let e = take 8 (drop pos buf)
           in Inr (le_int (take 2 e), le_int (take 2 (drop 2 e)), le_int (drop 4 e)))"

definition struct_pack_HHI :: "int \<Rightarrow> int \<Rightarrow> int \<Rightarrow> py_error + bytes" where
  "struct_pack_HHI a b c =
     (if 0 \<le> a \<and> a < 2 ^ 16 \<and> 0 \<le> b \<and> b < 2 ^ 16 \<and> 0 \<le> c \<and> c < 2 ^ 32
      then Inr (le_bytes 2 a @ le_bytes 2 b @ le_bytes 4 c)
      else Inl StructError)"

text \<open>
  The body of the loop \<^verbatim>\<open>for i in range(num_entries)\<close>, run over the list of
  indices, with \<^verbatim>\<open>new_blob\<close> as the accumulator. An exception leaves the loop.
\<close>

fun shift_entries :: "bytes \<Rightarrow> int \<Rightarrow> nat list \<Rightarrow> bytes \<Rightarrow> py_error + bytes" where
  "shift_entries blob offset [] new_blob = Inr new_blob"
| "shift_entries blob offset (i # is) new_blob =
     (let entry_offset = ACL_HEADER_SIZE + i * ACL_ENTRY_SIZE in
      case struct_unpack_from_HHI blob entry_offset of
        Inl e \<Rightarrow> Inl e
      | Inr (tag, perm, old_id) \<Rightarrow>
          (let new_id = (if tag = ACL_TAG_USER \<or> tag = ACL_TAG_GROUP
                         then shift_id old_id offset else old_id) in
           case struct_pack_HHI tag perm new_id of
             Inl e \<Rightarrow> Inl e
           | Inr packed \<Rightarrow> shift_entries blob offset is (new_blob @ packed)))"

text \<open>
  \<open>modify_acl_blob_try\<close> is the body of the \<^verbatim>\<open>try\<close> block, \<open>modify_acl_blob\<close> adds
  the handler \<^verbatim>\<open>except struct.error: return blob\<close>; any other exception would
  propagate to the caller. The subtractions are on lengths that the first test has
  shown to be at least the header size.
\<close>

definition modify_acl_blob_try :: "bytes \<Rightarrow> int \<Rightarrow> py_error + bytes" where
  "modify_acl_blob_try blob offset =
     (if length blob < ACL_HEADER_SIZE then Inr blob
      else case struct_unpack_I (take ACL_HEADER_SIZE blob) of
        Inl e \<Rightarrow> Inl e
      | Inr version \<Rightarrow>
          if version \<noteq> ACL_EA_VERSION then Inr blob
          else if (length blob - ACL_HEADER_SIZE) mod ACL_ENTRY_SIZE \<noteq> 0 then Inr blob
          else (let new_blob = take ACL_HEADER_SIZE blob;
                    num_entries = (length blob - ACL_HEADER_SIZE) div ACL_ENTRY_SIZE
                in shift_entries blob offset [0..<num_entries] new_blob))"

definition modify_acl_blob :: "bytes \<Rightarrow> int \<Rightarrow> py_error + bytes" where
  "modify_acl_blob blob offset =
     (case modify_acl_blob_try blob offset of
        Inl StructError \<Rightarrow> Inr blob
      | Inl e \<Rightarrow> Inl e
      | Inr new_blob \<Rightarrow> Inr new_blob)"

section \<open>Vocabulary for the properties of the codec\<close>

text \<open>
  The \<open>i\<close>-th entry of a blob and its three fields in the layout of the format; a
  blob is well formed when it has the version header 2 and a body of whole entries;
  an entry carries an id when its tag is USER or GROUP.
\<close>

definition acl_entry :: "bytes \<Rightarrow> nat \<Rightarrow> bytes" where
  "acl_entry blob i = take ACL_ENTRY_SIZE (drop (ACL_HEADER_SIZE + i * ACL_ENTRY_SIZE) blob)"

definition entry_tag :: "bytes \<Rightarrow> int" where
  "entry_tag e = le_int (take 2 e)"

definition entry_perm :: "bytes \<Rightarrow> int" where
  "entry_perm e = le_int (take 2 (drop 2 e))"

definition entry_id :: "bytes \<Rightarrow> int" where
  "entry_id e = le_int (take 4 (drop 4 e))"

definition acl_num_entries :: "bytes \<Rightarrow> nat" where
  "acl_num_entries blob = (length blob - ACL_HEADER_SIZE) div ACL_ENTRY_SIZE"

definition acl_well_formed :: "bytes \<Rightarrow> bool" where
  "acl_well_formed blob \<longleftrightarrow>
     ACL_HEADER_SIZE \<le> length blob \<and> take ACL_HEADER_SIZE blob = [2, 0, 0, 0] \<and>
     (length blob - ACL_HEADER_SIZE) mod ACL_ENTRY_SIZE = 0"

definition carries_id :: "bytes \<Rightarrow> bool" where
  "carries_id e \<longleftrightarrow> entry_tag e = ACL_TAG_USER \<or> entry_tag e = ACL_TAG_GROUP"

text \<open>
  The id the loop writes back for an entry, the entry it appends, and the blob it
  builds when every \<^verbatim>\<open>struct.pack\<close> succeeds. \<open>ids_fit\<close> says that every shifted
  id is below \<open>2^32\<close>, the bound of the 32-bit id field.
\<close>

definition entry_new_id :: "bytes \<Rightarrow> int \<Rightarrow> int" where
  "entry_new_id e offset = (if carries_id e then shift_id (entry_id e) offset else entry_id e)"

definition shifted_entry :: "bytes \<Rightarrow> int \<Rightarrow> bytes" where
  "shifted_entry e offset = take 4 e @ le_bytes 4 (entry_new_id e offset)"

definition shifted_blob :: "bytes \<Rightarrow> int \<Rightarrow> bytes" where
  "shifted_blob blob offset =
     take ACL_HEADER_SIZE blob @
     concat (map (\<lambda>i. shifted_entry (acl_entry blob i) offset) [0..<acl_num_entries blob])"

definition ids_fit :: "bytes \<Rightarrow> int \<Rightarrow> bool" where
  "ids_fit blob offset \<longleftrightarrow>
     (\<forall>i<acl_num_entries blob. carries_id (acl_entry blob i) \<longrightarrow>
        shift_id (entry_id (acl_entry blob i)) offset < 2 ^ 32)"

text \<open>
  Three blobs used as concrete inputs: a USER entry with id 1000 followed by an entry
  with tag 4 and the id field \<open>0xFFFFFFFF\<close>; the same blob with the USER id at 101000;
  and a single USER entry with id 2000000000.
\<close>

definition example_acl :: bytes where
  "example_acl = [2, 0, 0, 0,  2, 0, 7, 0, 232, 3, 0, 0,  4, 0, 5, 0, 255, 255, 255, 255]"

definition shifted_acl :: bytes where
  "shifted_acl = [2, 0, 0, 0,  2, 0, 7, 0, 136, 138, 1, 0,  4, 0, 5, 0, 255, 255, 255, 255]"

definition overflow_acl :: bytes where
  "overflow_acl = [2, 0, 0, 0,  2, 0, 7, 0, 0, 148, 53, 119]"

section \<open>The filesystem seen through the \<^verbatim>\<open>os\<close> module\<close>

text \<open>
  The program reaches the filesystem only through \<^verbatim>\<open>os.lstat\<close>,
  \<^verbatim>\<open>os.listxattr\<close>, \<^verbatim>\<open>os.getxattr\<close>, \<^verbatim>\<open>os.lchown\<close>, \<^verbatim>\<open>os.chmod\<close> and
  \<^verbatim>\<open>os.setxattr\<close>. An entry has an owner, a group, a mode (file type bits and
  permission bits) and extended attributes, kept as an association list in listing
  order.
\<close>

record inode =
  st_uid :: int
  st_gid :: int
  st_mode :: int
  xattrs :: "(string \<times> bytes) list"

datatype syscall =
    Lstat string
  | Listxattr string
  | Getxattr string string
  | Lchown string int int
  | Chmod string int
  | Setxattr string string bytes

text \<open>
  What the program prints: the three messages to standard error and the trace line of
  the \<^verbatim>\<open>DEBUG\<close> mode to standard output. The text of the exception inside a
  message is left out.
\<close>

datatype message =
    Warning_mode string
  | Warning_xattr string string
  | Error_processing string
  | Shifted string int int int int int

text \<open>
  The state the program runs in. \<open>fails\<close> says which calls the environment lets fail
  with \<^verbatim>\<open>OSError\<close>; \<open>chown_side_effect\<close> is what the kernel does to the rest of
  an entry when its ownership changes (clearing setuid and setgid bits, dropping
  capabilities); \<open>DEBUG\<close> is the global flag read from the environment; \<open>calls\<close> logs
  every call made, in order, whether it succeeds or not; \<open>stderr\<close> and \<open>stdout\<close> are
  the lines printed.
\<close>

record world =
  inodes :: "string \<Rightarrow> inode option"
  fails :: "syscall \<Rightarrow> bool"
  chown_side_effect :: "inode \<Rightarrow> inode"
  DEBUG :: bool
  calls :: "syscall list"
  stderr :: "message list"
  stdout :: "message list"

text \<open>The functions of \<^verbatim>\<open>stat\<close>: \<open>0o7777 = 4095\<close>, \<open>0o170000 = 61440\<close>,
  \<open>S_IFLNK = 0o120000 = 40960\<close>.\<close>

definition S_IMODE :: "int \<Rightarrow> int" where
  "S_IMODE mode = mode AND 4095"

definition S_IFMT :: "int \<Rightarrow> int" where
  "S_IFMT mode = mode AND 61440"

definition S_ISLNK :: "int \<Rightarrow> bool" where
  "S_ISLNK mode \<longleftrightarrow> S_IFMT mode = 40960"

text \<open>
  Every call is logged. It raises \<^verbatim>\<open>OSError\<close> when the environment makes it fail or
  the path names no entry; \<^verbatim>\<open>os.getxattr\<close> also when the entry has no such
  attribute. \<^verbatim>\<open>os.lchown\<close> converts its ids to the 32-bit unsigned id type of the
  platform first: an id below \<open>-1\<close> or above \<open>2^32 - 1\<close> raises
  \<^verbatim>\<open>OverflowError\<close>, and \<open>-1\<close> and \<open>2^32 - 1\<close> both mean that the id is left as it
  is. \<^verbatim>\<open>os.chmod\<close> replaces the permission bits and keeps the file type
  bits. It follows symbolic links, and the program calls it on entries that are not
  symbolic links only. \<^verbatim>\<open>os.setxattr\<close> changes the named attribute and nothing else
  of the entry.
\<close>

definition invoke :: "syscall \<Rightarrow> world \<Rightarrow> world" where
  "invoke c w = w\<lparr>calls := calls w @ [c]\<rparr>"

definition lookup_inode :: "syscall \<Rightarrow> string \<Rightarrow> world \<Rightarrow> py_error + inode" where
  "lookup_inode c path w =
     (if fails w c then Inl OSError
      else case inodes w path of None \<Rightarrow> Inl OSError | Some i \<Rightarrow> Inr i)"

definition os_lstat :: "string \<Rightarrow> world \<Rightarrow> (py_error + inode) \<times> world" where
  "os_lstat path w = (lookup_inode (Lstat path) path w, invoke (Lstat path) w)"

definition os_listxattr :: "string \<Rightarrow> world \<Rightarrow> (py_error + string list) \<times> world" where
  "os_listxattr path w =
     (case lookup_inode (Listxattr path) path w of
        Inl e \<Rightarrow> Inl e
      | Inr i \<Rightarrow> Inr (map fst (xattrs i)),
      invoke (Listxattr path) w)"

definition os_getxattr :: "string \<Rightarrow> string \<Rightarrow> world \<Rightarrow> (py_error + bytes) \<times> world" where
  "os_getxattr path name w =
     (case lookup_inode (Getxattr path name) path w of
        Inl e \<Rightarrow> Inl e
      | Inr i \<Rightarrow> (case map_of (xattrs i) name of None \<Rightarrow> Inl OSError | Some v \<Rightarrow> Inr v),
      invoke (Getxattr path name) w)"

definition lchown_accepts :: "int \<Rightarrow> bool" where
  "lchown_accepts v \<longleftrightarrow> - 1 \<le> v \<and> v \<le> 4294967295"

definition lchown_sets :: "int \<Rightarrow> int \<Rightarrow> int" where
  "lchown_sets old v = (if v = - 1 \<or> v = 4294967295 then old else v)"

definition os_lchown :: "string \<Rightarrow> int \<Rightarrow> int \<Rightarrow> world \<Rightarrow> (py_error + unit) \<times> world" where
  "os_lchown path uid gid w =
     (if \<not> (lchown_accepts uid \<and> lchown_accepts gid)
      then (Inl OverflowError, invoke (Lchown path uid gid) w)
      else case lookup_inode (Lchown path uid gid) path w of
        Inl e \<Rightarrow> (Inl e, invoke (Lchown path uid gid) w)
      | Inr i \<Rightarrow>
          (Inr (),
           invoke (Lchown path uid gid)
             (w\<lparr>inodes := (inodes w)
                  (path \<mapsto> (chown_side_effect w i)
                     \<lparr>st_uid := lchown_sets (st_uid i) uid,
                      st_gid := lchown_sets (st_gid i) gid\<rparr>)\<rparr>)))"

definition os_chmod :: "string \<Rightarrow> int \<Rightarrow> world \<Rightarrow> (py_error + unit) \<times> world" where
  "os_chmod path mode w =
     (case lookup_inode (Chmod path mode) path w of
        Inl e \<Rightarrow> (Inl e, invoke (Chmod path mode) w)
      | Inr i \<Rightarrow>
          (Inr (),
           invoke (Chmod path mode)
             (w\<lparr>inodes := (inodes w)
                  (path \<mapsto> i\<lparr>st_mode := S_IFMT (st_mode i) OR S_IMODE mode\<rparr>)\<rparr>)))"

definition os_setxattr :: "string \<Rightarrow> string \<Rightarrow> bytes \<Rightarrow> world \<Rightarrow> (py_error + unit) \<times> world" where
  "os_setxattr path name val w =
     (case lookup_inode (Setxattr path name val) path w of
        Inl e \<Rightarrow> (Inl e, invoke (Setxattr path name val) w)
      | Inr i \<Rightarrow>
          (Inr (),
           invoke (Setxattr path name val)
             (w\<lparr>inodes := (inodes w)
                  (path \<mapsto> i\<lparr>xattrs := AList.update name val (xattrs i)\<rparr>)\<rparr>)))"

section \<open>The per-entry shift protocol\<close>

text \<open>
  \<^verbatim>\<open>xattrs_backup\<close> is a Python dictionary: an association list in insertion order,
  where assigning to a key that is present replaces its value in place.
\<close>

definition acl_xattrs :: "string set" where
  "acl_xattrs = {''system.posix_acl_access'', ''system.posix_acl_default''}"

type_synonym xattr_dict = "(string \<times> bytes) list"

text \<open>
  Step 2 of \<^verbatim>\<open>shift_file\<close>. \<open>backup_one\<close> is the body of the inner \<^verbatim>\<open>try\<close>;
  \<open>backup_loop\<close> is the \<^verbatim>\<open>for name in ...\<close> loop with the handler
  \<^verbatim>\<open>except OSError: pass\<close> around each body; \<open>read_xattrs\<close> adds the outer
  handler, which covers \<^verbatim>\<open>os.listxattr\<close>. A function returns the exception that
  leaves it, if any, the dictionary and the state.
\<close>

definition backup_one ::
  "string \<Rightarrow> int \<Rightarrow> string \<Rightarrow> xattr_dict \<Rightarrow> world \<Rightarrow> py_error option \<times> xattr_dict \<times> world" where
  "backup_one path offset name xattrs_backup w =
     (case os_getxattr path name w of
        (Inl e, w') \<Rightarrow> (Some e, xattrs_backup, w')
      | (Inr val, w') \<Rightarrow>
          if name \<in> acl_xattrs then
            (case modify_acl_blob val offset of
               Inl e \<Rightarrow> (Some e, xattrs_backup, w')
             | Inr shifted \<Rightarrow> (None, AList.update name shifted xattrs_backup, w'))
          else (None, AList.update name val xattrs_backup, w'))"

fun backup_loop ::
  "string \<Rightarrow> int \<Rightarrow> string list \<Rightarrow> xattr_dict \<Rightarrow> world \<Rightarrow> py_error option \<times> xattr_dict \<times> world" where
  "backup_loop path offset [] xattrs_backup w = (None, xattrs_backup, w)"
| "backup_loop path offset (name # names) xattrs_backup w =
     (case backup_one path offset name xattrs_backup w of
        (Some OSError, xattrs_backup', w') \<Rightarrow> backup_loop path offset names xattrs_backup' w'
      | (Some e, xattrs_backup', w') \<Rightarrow> (Some e, xattrs_backup', w')
      | (None, xattrs_backup', w') \<Rightarrow> backup_loop path offset names xattrs_backup' w')"

definition read_xattrs ::
  "string \<Rightarrow> int \<Rightarrow> world \<Rightarrow> py_error option \<times> xattr_dict \<times> world" where
  "read_xattrs path offset w =
     (case os_listxattr path w of
        (Inl OSError, w') \<Rightarrow> (None, [], w')
      | (Inl e, w') \<Rightarrow> (Some e, [], w')
      | (Inr names, w') \<Rightarrow>
          (case backup_loop path offset names [] w' of
             (Some OSError, xattrs_backup, w'') \<Rightarrow> (None, xattrs_backup, w'')
           | r \<Rightarrow> r))"

text \<open>
  Step 4: \<open>restore_mode\<close> is the \<^verbatim>\<open>os.chmod\<close> with its handler, \<open>restore_xattrs\<close>
  the loop over \<^verbatim>\<open>xattrs_backup.items()\<close> with the handler around each
  \<^verbatim>\<open>os.setxattr\<close>. Both handlers print a warning and go on.
\<close>

definition restore_mode :: "string \<Rightarrow> int \<Rightarrow> world \<Rightarrow> py_error option \<times> world" where
  "restore_mode path old_mode w =
     (case os_chmod path (S_IMODE old_mode) w of
        (Inl OSError, w') \<Rightarrow> (None, w'\<lparr>stderr := stderr w' @ [Warning_mode path]\<rparr>)
      | (Inl e, w') \<Rightarrow> (Some e, w')
      | (Inr u, w') \<Rightarrow> (None, w'))"

fun restore_xattrs :: "string \<Rightarrow> xattr_dict \<Rightarrow> world \<Rightarrow> py_error option \<times> world" where
  "restore_xattrs path [] w = (None, w)"
| "restore_xattrs path ((name, val) # rest) w =
     (case os_setxattr path name val w of
        (Inl OSError, w') \<Rightarrow>
          restore_xattrs path rest (w'\<lparr>stderr := stderr w' @ [Warning_xattr name path]\<rparr>)
      | (Inl e, w') \<Rightarrow> (Some e, w')
      | (Inr u, w') \<Rightarrow> restore_xattrs path rest w')"

text \<open>
  \<open>shift_file_try\<close> is the body of the outer \<^verbatim>\<open>try\<close>, \<open>shift_file\<close> adds the
  handler \<^verbatim>\<open>except (OSError, PermissionError)\<close>, which prints the error and returns.
  Any other exception leaves \<open>shift_file\<close>.
\<close>

definition shift_file_try :: "string \<Rightarrow> int \<Rightarrow> world \<Rightarrow> py_error option \<times> world" where
  "shift_file_try path offset w =
     (case os_lstat path w of
        (Inl e, w1) \<Rightarrow> (Some e, w1)
      | (Inr stat_info, w1) \<Rightarrow>
          (let old_uid = st_uid stat_info;
               old_gid = st_gid stat_info;
               old_mode = st_mode stat_info;
               is_symlink = S_ISLNK old_mode;
               new_uid = shift_id old_uid offset;
               new_gid = shift_id old_gid offset
           in if new_uid = old_uid \<and> new_gid = old_gid then (None, w1)
              else
                (case read_xattrs path offset w1 of
                   (Some e, xattrs_backup, w2) \<Rightarrow> (Some e, w2)
                 | (None, xattrs_backup, w2) \<Rightarrow>
                     (case os_lchown path new_uid new_gid w2 of
                        (Inl e, w3) \<Rightarrow> (Some e, w3)
                      | (Inr u, w3) \<Rightarrow>
                          (case (if \<not> is_symlink then restore_mode path old_mode w3
                                 else (None, w3)) of
                             (Some e, w4) \<Rightarrow> (Some e, w4)
                           | (None, w4) \<Rightarrow>
                               (case restore_xattrs path xattrs_backup w4 of
                                  (Some e, w5) \<Rightarrow> (Some e, w5)
                                | (None, w5) \<Rightarrow>
                                    (None,
                                     if DEBUG w5
                                     then w5\<lparr>stdout := stdout w5 @
                                            [Shifted path old_uid old_gid new_uid new_gid old_mode]\<rparr>
                                     else w5)))))))"

definition shift_file :: "string \<Rightarrow> int \<Rightarrow> world \<Rightarrow> py_error option \<times> world" where
  "shift_file path offset w =
     (case shift_file_try path offset w of
        (Some OSError, w') \<Rightarrow> (None, w'\<lparr>stderr := stderr w' @ [Error_processing path]\<rparr>)
      | r \<Rightarrow> r)"

section \<open>Vocabulary for the properties of the protocol\<close>

text \<open>
  The names \<^verbatim>\<open>os.listxattr\<close> returns (none when it fails), the value
  \<^verbatim>\<open>os.getxattr\<close> returns (none when it fails), the value stored in the backup for
  an attribute, and the backup the loop builds from a list of names.
\<close>

definition xattr_names :: "world \<Rightarrow> string \<Rightarrow> string list" where
  "xattr_names w path =
     (case lookup_inode (Listxattr path) path w of Inl e \<Rightarrow> [] | Inr i \<Rightarrow> map fst (xattrs i))"

definition xattr_read :: "world \<Rightarrow> string \<Rightarrow> string \<Rightarrow> bytes option" where
  "xattr_read w path name =
     (case lookup_inode (Getxattr path name) path w of
        Inl e \<Rightarrow> None
      | Inr i \<Rightarrow> map_of (xattrs i) name)"

definition backup_value :: "string \<Rightarrow> bytes \<Rightarrow> int \<Rightarrow> bytes" where
  "backup_value name val offset =
     (if name \<in> acl_xattrs
      then (case modify_acl_blob val offset of Inl e \<Rightarrow> val | Inr shifted \<Rightarrow> shifted)
      else val)"

fun backup_of :: "world \<Rightarrow> string \<Rightarrow> int \<Rightarrow> string list \<Rightarrow> xattr_dict \<Rightarrow> xattr_dict" where
  "backup_of w path offset [] acc = acc"
| "backup_of w path offset (name # names) acc =
     backup_of w path offset names
       (case xattr_read w path name of
          None \<Rightarrow> acc
        | Some val \<Rightarrow> AList.update name (backup_value name val offset) acc)"

definition backup_set :: "world \<Rightarrow> string \<Rightarrow> int \<Rightarrow> string list \<Rightarrow> xattr_dict" where
  "backup_set w path offset names =
     List.map_filter
       (\<lambda>name. map_option (\<lambda>val. (name, backup_value name val offset)) (xattr_read w path name))
       names"

text \<open>
  The backup as a list comprehension: the attributes whose read does not fail, each
  with its stored value. The calls and the warnings of the restoring loop, the owner,
  group and mode of an entry, the state after the reads of steps 1 and 2, and the calls
  a run adds to the log.
\<close>

definition kept_xattrs :: "world \<Rightarrow> string \<Rightarrow> int \<Rightarrow> xattr_dict \<Rightarrow> xattr_dict" where
  "kept_xattrs w path offset xs =
     [(name, backup_value name val offset). (name, val) \<leftarrow> xs, \<not> fails w (Getxattr path name)]"

definition setxattr_calls :: "string \<Rightarrow> xattr_dict \<Rightarrow> syscall list" where
  "setxattr_calls path backup = map (\<lambda>(name, val). Setxattr path name val) backup"

definition setxattr_warnings :: "world \<Rightarrow> string \<Rightarrow> xattr_dict \<Rightarrow> message list" where
  "setxattr_warnings w path backup =
     map (\<lambda>(name, val). Warning_xattr name path)
       (filter (\<lambda>(name, val). fails w (Setxattr path name val)) backup)"

definition owner_mode :: "world \<Rightarrow> string \<Rightarrow> (int \<times> int \<times> int) option" where
  "owner_mode w path = map_option (\<lambda>i. (st_uid i, st_gid i, st_mode i)) (inodes w path)"

definition after_reads :: "world \<Rightarrow> string \<Rightarrow> world" where
  "after_reads w path =
     w\<lparr>calls := calls w @ [Lstat path, Listxattr path] @ map (Getxattr path) (xattr_names w path)\<rparr>"

definition new_calls :: "world \<Rightarrow> world \<Rightarrow> syscall list" where
  "new_calls w w' = drop (length (calls w)) (calls w')"

text \<open>
  A concrete environment: on a change of ownership the kernel leaves a directory
  (\<open>S_IFDIR = 0o040000 = 16384\<close>) as it is; on any other entry it clears the setuid
  bit, and the setgid bit too when the group may execute (\<open>S_IXGRP = 0o010 = 8\<close>,
  \<open>0o173777 = 63487\<close>, \<open>0o171777 = 62463\<close>), and drops \<^verbatim>\<open>security.capability\<close>;
  \<^verbatim>\<open>/srv/app\<close> is a regular file with mode \<open>0o106755 = 36333\<close> owned by
  1000:1000 with two attributes, \<^verbatim>\<open>/srv/link\<close> a symbolic link with mode
  \<open>0o120777 = 41471\<close>. In \<open>failing_world\<close> reading \<^verbatim>\<open>user.note\<close> fails.
\<close>

definition linux_chown :: "inode \<Rightarrow> inode" where
  "linux_chown i =
     (if S_IFMT (st_mode i) = 16384 then i
      else i\<lparr>st_mode := (if st_mode i AND 8 = 0 then st_mode i AND 63487
                         else st_mode i AND 62463),
             xattrs := filter (\<lambda>(name, val). name \<noteq> ''security.capability'') (xattrs i)\<rparr>)"

definition example_inode :: inode where
  "example_inode =
     \<lparr>st_uid = 1000, st_gid = 1000, st_mode = 36333,
      xattrs = [(''user.note'', [1, 2]), (''system.posix_acl_access'', example_acl)]\<rparr>"

definition symlink_inode :: inode where
  "symlink_inode = \<lparr>st_uid = 1000, st_gid = 1000, st_mode = 41471, xattrs = []\<rparr>"

definition example_world :: world where
  "example_world =
     \<lparr>inodes = [''/srv/app'' \<mapsto> example_inode, ''/srv/link'' \<mapsto> symlink_inode],
      fails = (\<lambda>c. False),
      chown_side_effect = linux_chown,
      DEBUG = False, calls = [], stderr = [], stdout = []\<rparr>"

definition failing_world :: world where
  "failing_world = example_world\<lparr>fails := (\<lambda>c. c = Getxattr ''/srv/app'' ''user.note'')\<rparr>"

section \<open>The traversal\<close>









section \<open>Vocabulary for the properties of the traversal\<close>










section \<open>Properties of the shift arithmetic\<close>

lemma shift_id_pos: "0 < offset \<Longrightarrow>
    shift_id i offset = (if i < offset then i + offset else i)"
  by (simp add: shift_id_def)

lemma shift_id_neg: "offset < 0 \<Longrightarrow>
    shift_id i offset = (if - offset \<le> i then i + offset else i)"
  by (simp add: shift_id_def)

lemma shift_id_nonneg: "0 \<le> i \<Longrightarrow> 0 \<le> shift_id i offset"
  by (auto simp: shift_id_def Let_def)

text \<open>
  C1. For a non-negative id and a non-zero offset: with a positive offset the result
  is \<open>id + offset\<close> exactly when \<open>id < |offset|\<close> and the id itself otherwise; with a
  negative offset the result is \<open>id + offset\<close> exactly when \<open>id \<ge> |offset|\<close> and the
  id itself otherwise.
\<close>

theorem shift_id_boundary_law:
  assumes "0 \<le> i" and "offset \<noteq> 0"
  shows "(0 < offset \<longrightarrow>
            (shift_id i offset = i + offset \<longleftrightarrow> i < \<bar>offset\<bar>) \<and>
            (\<not> i < \<bar>offset\<bar> \<longrightarrow> shift_id i offset = i)) \<and>
         (offset < 0 \<longrightarrow>
            (shift_id i offset = i + offset \<longleftrightarrow> \<bar>offset\<bar> \<le> i) \<and>
            (\<not> \<bar>offset\<bar> \<le> i \<longrightarrow> shift_id i offset = i))"
  using assms by (auto simp: shift_id_def Let_def)

theorem shift_id_boundary_law_witness:
  "shift_id 1000 100000 = 101000 \<and> shift_id 100000 100000 = 100000 \<and>
   shift_id 101000 (- 100000) = 1000 \<and> shift_id 99999 (- 100000) = 99999"
proof -
  have a: "(0::int) \<le> 1000" "(100000::int) \<noteq> 0" "(0::int) < 100000" by simp_all
  have b: "(0::int) \<le> 100000" by simp
  have c: "(0::int) \<le> 101000" "(- 100000::int) \<noteq> 0" "(- 100000::int) < 0" by simp_all
  have d: "(0::int) \<le> 99999" by simp
  from shift_id_boundary_law [OF a(1) a(2)] a(3)
  have 1: "shift_id 1000 100000 = 101000" by simp
  from shift_id_boundary_law [OF b a(2)] a(3)
  have 2: "shift_id 100000 100000 = 100000" by simp
  from shift_id_boundary_law [OF c(1) c(2)] c(3)
  have 3: "shift_id 101000 (- 100000) = 1000" by simp
  from shift_id_boundary_law [OF d c(2)] c(3)
  have 4: "shift_id 99999 (- 100000) = 99999" by simp
  from 1 2 3 4 show ?thesis by simp
qed

text \<open>
  C9. For a non-negative id and a negative offset the result is never negative: the
  offset is added only when \<open>id \<ge> |offset|\<close>, where \<open>id + offset \<ge> 0\<close>, and the id
  is returned unchanged otherwise.
\<close>

theorem shift_id_negative_offset_nonneg:
  assumes "0 \<le> i" and "offset < 0"
  shows "0 \<le> shift_id i offset \<and>
         (\<bar>offset\<bar> \<le> i \<longrightarrow> shift_id i offset = i + offset \<and> 0 \<le> i + offset) \<and>
         (i < \<bar>offset\<bar> \<longrightarrow> shift_id i offset = i)"
  using assms by (auto simp: shift_id_def Let_def)

theorem shift_id_negative_offset_nonneg_witness:
  "0 \<le> shift_id 100000 (- 100000) \<and> shift_id 100000 (- 100000) = 0 \<and>
   shift_id 99999 (- 100000) = 99999"
proof -
  have a: "(0::int) \<le> 100000" "(- 100000::int) < 0" by simp_all
  have b: "(0::int) \<le> 99999" by simp
  from shift_id_negative_offset_nonneg [OF a]
  have 1: "0 \<le> shift_id 100000 (- 100000) \<and> shift_id 100000 (- 100000) = 0" by simp
  from shift_id_negative_offset_nonneg [OF b a(2)]
  have 2: "shift_id 99999 (- 100000) = 99999" by simp
  from 1 2 show ?thesis by simp
qed

text \<open>
  C10. For a non-negative id and a positive offset, shifting twice is the same as
  shifting once: a shifted id is at least the offset and is left alone afterwards.
\<close>

theorem shift_id_idempotent_positive:
  assumes "0 \<le> i" and "0 < offset"
  shows "shift_id (shift_id i offset) offset = shift_id i offset"
  using assms by (auto simp: shift_id_def Let_def)

theorem shift_id_idempotent_positive_witness:
  "shift_id (shift_id 1000 100000) 100000 = shift_id 1000 100000 \<and>
   shift_id 1000 100000 = 101000"
proof -
  have a: "(0::int) \<le> 1000" "(0::int) < 100000" by simp_all
  from shift_id_idempotent_positive [OF a] show ?thesis
    by (simp add: shift_id_def)
qed

text \<open>
  With a negative offset the second application can shift again: 5 goes to 3 and
  then to 1 under the offset \<open>-2\<close>.
\<close>

lemma shift_id_not_idempotent_negative:
  "shift_id 5 (- 2) = 3 \<and> shift_id (shift_id 5 (- 2)) (- 2) = 1"
  by (simp add: shift_id_def)

section \<open>Properties of the ACL blob codec\<close>

subsection \<open>Little-endian encoding\<close>

lemma length_le_bytes: "length (le_bytes n v) = n"
  by (induction n arbitrary: v) auto

lemma le_int_nonneg: "0 \<le> le_int bs"
  by (induction bs) auto

lemma uint_byte_less: "uint (b :: byte) < 256"
  using uint_bounded [of b] by simp

lemma le_int_less: "le_int bs < 256 ^ length bs"
proof (induction bs)
  case Nil
  show ?case by simp
next
  case (Cons b bs)
  have "uint b < 256" by (rule uint_byte_less)
  moreover have "le_int bs + 1 \<le> 256 ^ length bs" using Cons.IH by simp
  then have "256 * (le_int bs + 1) \<le> 256 * 256 ^ length bs" by simp
  ultimately show ?case by (simp add: algebra_simps)
qed

lemma byte_256: "(256 :: byte) = 0"
  by (simp add: word_eq_iff_unsigned [where ?'a = nat])

lemma byte_of_int_cons: "(word_of_int (uint b + 256 * x) :: byte) = b"
  by (simp add: byte_256)

lemma div_256_cons: "(uint (b :: byte) + 256 * x) div 256 = x"
  using uint_byte_less [of b] uint_nonnegative [of b] by simp

lemma le_bytes_le_int: "le_bytes (length bs) (le_int bs) = bs"
  by (induction bs) (simp_all add: div_256_cons byte_256)

lemma le_int_le_bytes: "0 \<le> v \<Longrightarrow> v < 256 ^ n \<Longrightarrow> le_int (le_bytes n v) = v"
proof (induction n arbitrary: v)
  case 0
  then show ?case by simp
next
  case (Suc n)
  have "0 \<le> v div 256" using Suc.prems(1) by simp
  moreover have "v div 256 < 256 ^ n" using Suc.prems(2) by (simp add: div_less_iff_less_mult)  
  ultimately have "le_int (le_bytes n (v div 256)) = v div 256" by (rule Suc.IH)
  then show ?case by (simp add: uint_word_of_int)
qed

lemmas acl_consts = ACL_EA_VERSION_def ACL_TAG_USER_def ACL_TAG_GROUP_def
  ACL_ENTRY_SIZE_def ACL_HEADER_SIZE_def

lemma length_acl_entry:
  "ACL_HEADER_SIZE + i * ACL_ENTRY_SIZE + ACL_ENTRY_SIZE \<le> length blob \<Longrightarrow>
   length (acl_entry blob i) = 8"
  by (simp add: acl_entry_def acl_consts)

lemma unpack_entry:
  "ACL_HEADER_SIZE + i * ACL_ENTRY_SIZE + ACL_ENTRY_SIZE \<le> length blob \<Longrightarrow>
   struct_unpack_from_HHI blob (ACL_HEADER_SIZE + i * ACL_ENTRY_SIZE) =
     Inr (entry_tag (acl_entry blob i), entry_perm (acl_entry blob i), entry_id (acl_entry blob i))"
  by (simp add: struct_unpack_from_HHI_def acl_entry_def entry_tag_def entry_perm_def
      entry_id_def acl_consts Let_def)

lemma le_int_less_2: "length bs = 2 \<Longrightarrow> le_int bs < 65536"
  using le_int_less [of bs] by simp

lemma le_int_less_4: "length bs = 4 \<Longrightarrow> le_int bs < 4294967296"
  using le_int_less [of bs] by simp

lemma le_bytes_2: "length bs = 2 \<Longrightarrow> le_bytes 2 (le_int bs) = bs"
  using le_bytes_le_int [of bs] by simp

lemma le_bytes_4: "length bs = 4 \<Longrightarrow> le_bytes 4 (le_int bs) = bs"
  using le_bytes_le_int [of bs] by simp

lemma take_2_2: "take 2 e @ take 2 (drop 2 e) = take 4 e"
proof -
  have "take (2 + 2) e = take 2 e @ take 2 (drop 2 e)" by (rule take_add)
  then show ?thesis by simp
qed

lemma entry_head:
  assumes "length e = 8"
  shows "le_bytes 2 (entry_tag e) @ le_bytes 2 (entry_perm e) = take 4 e"
proof -
  have t: "length (take 2 e) = 2" and p: "length (take 2 (drop 2 e)) = 2"
    using assms by simp_all
  show ?thesis
    unfolding entry_tag_def entry_perm_def le_bytes_2 [OF t] le_bytes_2 [OF p]
    by (rule take_2_2)
qed

lemma pack_entry:
  assumes "length e = 8"
  shows "struct_pack_HHI (entry_tag e) (entry_perm e) v =
           (if 0 \<le> v \<and> v < 2 ^ 32 then Inr (take 4 e @ le_bytes 4 v) else Inl StructError)"
proof -
  have t: "length (take 2 e) = 2" and p: "length (take 2 (drop 2 e)) = 2"
    using assms by simp_all
  have "le_bytes 2 (entry_tag e) @ le_bytes 2 (entry_perm e) = take 4 e"
    unfolding entry_tag_def entry_perm_def le_bytes_2 [OF t] le_bytes_2 [OF p]
    by (rule take_2_2)
  moreover have "0 \<le> entry_tag e" "entry_tag e < 2 ^ 16" "0 \<le> entry_perm e" "entry_perm e < 2 ^ 16"
    using le_int_less_2 [OF t] le_int_less_2 [OF p]
    by (simp_all add: entry_tag_def entry_perm_def le_int_nonneg)
  ultimately show ?thesis
    unfolding struct_pack_HHI_def by simp
qed

lemma entry_id_bounds:
  "length e = 8 \<Longrightarrow> 0 \<le> entry_id e \<and> entry_id e < 2 ^ 32"
  using le_int_less_4 [of "take 4 (drop 4 e)"] by (simp add: entry_id_def le_int_nonneg)

lemma entry_new_id_nonneg: "length e = 8 \<Longrightarrow> 0 \<le> entry_new_id e offset"
  using entry_id_bounds [of e] by (simp add: entry_new_id_def shift_id_nonneg)

lemma entry_roundtrip:
  assumes "length e = 8"
  shows "take 4 e @ le_bytes 4 (entry_id e) = e"
proof -
  have "length (take 4 (drop 4 e)) = 4" using assms by simp
  then have "le_bytes 4 (entry_id e) = take 4 (drop 4 e)"
    unfolding entry_id_def by (rule le_bytes_4)
  moreover have "take 4 (drop 4 e) = drop 4 e" using assms by simp
  ultimately show ?thesis by simp
qed

lemma length_shifted_entry: "length e = 8 \<Longrightarrow> length (shifted_entry e offset) = 8"
  by (simp add: shifted_entry_def length_le_bytes)

lemma shift_entries_char:
  assumes "\<forall>i\<in>set is. ACL_HEADER_SIZE + i * ACL_ENTRY_SIZE + ACL_ENTRY_SIZE \<le> length blob"
  shows "shift_entries blob offset is acc =
           (if \<forall>i\<in>set is. entry_new_id (acl_entry blob i) offset < 2 ^ 32
            then Inr (acc @ concat (map (\<lambda>i. shifted_entry (acl_entry blob i) offset) is))
            else Inl StructError)"
  using assms
proof (induction "is" arbitrary: acc)
  case Nil
  show ?case by simp
next
  case (Cons i "is")
  let ?e = "acl_entry blob i"
  have inr: "ACL_HEADER_SIZE + i * ACL_ENTRY_SIZE + ACL_ENTRY_SIZE \<le> length blob"
    using Cons.prems by simp
  have len: "length ?e = 8" by (rule length_acl_entry [OF inr])
  have rest: "\<forall>i\<in>set is. ACL_HEADER_SIZE + i * ACL_ENTRY_SIZE + ACL_ENTRY_SIZE \<le> length blob"
    using Cons.prems by simp
  have nid: "(if entry_tag ?e = ACL_TAG_USER \<or> entry_tag ?e = ACL_TAG_GROUP
              then shift_id (entry_id ?e) offset else entry_id ?e) = entry_new_id ?e offset"
    by (simp add: entry_new_id_def carries_id_def)
  have step: "shift_entries blob offset (i # is) acc =
      (case struct_pack_HHI (entry_tag ?e) (entry_perm ?e) (entry_new_id ?e offset) of
         Inl e \<Rightarrow> Inl e
       | Inr packed \<Rightarrow> shift_entries blob offset is (acc @ packed))"
    by (simp add: unpack_entry [OF inr] nid Let_def)
  show ?case
  proof (cases "entry_new_id ?e offset < 2 ^ 32")
    case True
    then have "shift_entries blob offset (i # is) acc =
        shift_entries blob offset is (acc @ shifted_entry ?e offset)"
      unfolding step using entry_new_id_nonneg [OF len, of offset]
      by (simp add: pack_entry [OF len] shifted_entry_def)
    then show ?thesis using True by (simp add: Cons.IH [OF rest])
  next
    case False
    then have "shift_entries blob offset (i # is) acc = Inl StructError"
      unfolding step by (simp add: pack_entry [OF len])
    then show ?thesis using False by simp
  qed
qed

lemma chunk_nth:
  "\<forall>c\<in>set cs. length c = k \<Longrightarrow> j < length cs \<Longrightarrow>
   take k (drop (j * k) (concat cs)) = cs ! j"
proof (induction cs arbitrary: j)
  case Nil
  then show ?case by simp
next
  case (Cons c cs)
  show ?case
  proof (cases j)
    case 0
    then show ?thesis using Cons.prems by simp
  next
    case (Suc j')
    have "take k (drop (j' * k) (concat cs)) = cs ! j'"
      using Cons.prems Suc by (intro Cons.IH) simp_all
    then show ?thesis using Cons.prems Suc by simp
  qed
qed

lemma concat_chunks:
  "length xs = n * k \<Longrightarrow> concat (map (\<lambda>i. take k (drop (i * k) xs)) [0..<n]) = xs"
proof (induction n arbitrary: xs)
  case 0
  then show ?case by simp
next
  case (Suc n)
  have "length (drop k xs) = n * k" using Suc.prems by simp
  then have ih: "concat (map (\<lambda>i. take k (drop (i * k) (drop k xs))) [0..<n]) = drop k xs"
    by (rule Suc.IH)
  have "[0..<Suc n] = 0 # map Suc [0..<n]"
    by (simp add: upt_conv_Cons map_Suc_upt del: upt_Suc)
  then have "concat (map (\<lambda>i. take k (drop (i * k) xs)) [0..<Suc n]) =
      take k xs @ concat (map (\<lambda>i. take k (drop (i * k) (drop k xs))) [0..<n])"
    by (simp add: comp_def add.commute del: upt_Suc)
  then show ?case using ih by (simp add: add.commute del: upt_Suc)
qed

lemma length_concat_chunks:
  "\<forall>c\<in>set cs. length c = k \<Longrightarrow> length (concat cs) = length cs * k"
  by (induction cs) simp_all

lemma le_bytes_4_2: "le_bytes 4 2 = [2, 0, 0, 0]"
  by code_simp

lemma version_2_iff:
  assumes "length hd4 = 4"
  shows "le_int hd4 = 2 \<longleftrightarrow> hd4 = [2, 0, 0, 0]"
proof
  assume "le_int hd4 = 2"
  then show "hd4 = [2, 0, 0, 0]"
    using le_bytes_4 [OF assms] le_bytes_4_2 by simp
next
  assume "hd4 = [2, 0, 0, 0]"
  then show "le_int hd4 = 2" by simp
qed

lemma wf_entry_in_range:
  assumes "acl_well_formed blob" and "i < acl_num_entries blob"
  shows "ACL_HEADER_SIZE + i * ACL_ENTRY_SIZE + ACL_ENTRY_SIZE \<le> length blob"
proof -
  have "(length blob - 4) mod 8 = 0" and "4 \<le> length blob"
    using assms(1) by (simp_all add: acl_well_formed_def acl_consts)
  moreover have "i < (length blob - 4) div 8"
    using assms(2) by (simp add: acl_num_entries_def acl_consts)
  ultimately have "4 + i * 8 + 8 \<le> length blob" by arith
  then show ?thesis by (simp add: acl_consts)
qed

lemma wf_entry_length:
  "acl_well_formed blob \<Longrightarrow> i < acl_num_entries blob \<Longrightarrow> length (acl_entry blob i) = 8"
  by (rule length_acl_entry [OF wf_entry_in_range])

lemma modify_acl_blob_try_wf:
  assumes "acl_well_formed blob"
  shows "modify_acl_blob_try blob offset =
     (if \<forall>i<acl_num_entries blob. entry_new_id (acl_entry blob i) offset < 2 ^ 32
      then Inr (take ACL_HEADER_SIZE blob @
                concat (map (\<lambda>i. shifted_entry (acl_entry blob i) offset)
                          [0..<acl_num_entries blob]))
      else Inl StructError)"
proof -
  have len: "\<not> length blob < ACL_HEADER_SIZE"
    and hdr: "take ACL_HEADER_SIZE blob = [2, 0, 0, 0]"
    and body: "(length blob - ACL_HEADER_SIZE) mod ACL_ENTRY_SIZE = 0"
    using assms by (simp_all add: acl_well_formed_def)
  have ver: "struct_unpack_I (take ACL_HEADER_SIZE blob) = Inr ACL_EA_VERSION"
    unfolding hdr by (simp add: struct_unpack_I_def ACL_EA_VERSION_def)
  have rng: "\<forall>i\<in>set [0..<acl_num_entries blob].
      ACL_HEADER_SIZE + i * ACL_ENTRY_SIZE + ACL_ENTRY_SIZE \<le> length blob"
    using wf_entry_in_range [OF assms] by simp
  have "modify_acl_blob_try blob offset =
      shift_entries blob offset [0..<acl_num_entries blob] (take ACL_HEADER_SIZE blob)"
    by (simp add: modify_acl_blob_try_def len ver body acl_num_entries_def Let_def)
  then show ?thesis
    by (simp add: shift_entries_char [OF rng])
qed

lemma unpack_from_error: "struct_unpack_from_HHI buf pos = Inl e \<Longrightarrow> e = StructError"
  by (simp add: struct_unpack_from_HHI_def Let_def split: if_splits)

lemma pack_error: "struct_pack_HHI a b c = Inl e \<Longrightarrow> e = StructError"
  by (simp add: struct_pack_HHI_def split: if_splits)

lemma unpack_I_error: "struct_unpack_I buf = Inl e \<Longrightarrow> e = StructError"
  by (simp add: struct_unpack_I_def split: if_splits)

lemma shift_entries_error: "shift_entries blob offset is acc = Inl e \<Longrightarrow> e = StructError"
proof (induction "is" arbitrary: acc)
  case Nil
  then show ?case by simp
next
  case (Cons i "is")
  show ?case
  proof (cases "struct_unpack_from_HHI blob (ACL_HEADER_SIZE + i * ACL_ENTRY_SIZE)")
    case (Inl e')
    then show ?thesis using Cons.prems unpack_from_error [OF Inl] by simp
  next
    case (Inr r)
    obtain tag perm old_id where r: "r = (tag, perm, old_id)" by (cases r)
    define new_id where "new_id = (if tag = ACL_TAG_USER \<or> tag = ACL_TAG_GROUP
                         then shift_id old_id offset else old_id)"
    show ?thesis
    proof (cases "struct_pack_HHI tag perm new_id")
      case (Inl e')
      then show ?thesis using Cons.prems Inr r pack_error [OF Inl]
        by (simp add: new_id_def)
    next
      case (Inr packed)
      then have "shift_entries blob offset is (acc @ packed) = Inl e"
        using Cons.prems \<open>struct_unpack_from_HHI blob (ACL_HEADER_SIZE + i * ACL_ENTRY_SIZE) = Inr r\<close> r
        by (simp add: new_id_def)
      then show ?thesis by (rule Cons.IH)
    qed
  qed
qed

lemma modify_acl_blob_try_error: "modify_acl_blob_try blob offset = Inl e \<Longrightarrow> e = StructError"
  unfolding modify_acl_blob_try_def Let_def
  by (auto split: if_splits sum.splits dest: shift_entries_error unpack_I_error)

lemma modify_acl_blob_cases:
  "modify_acl_blob blob offset =
     (case modify_acl_blob_try blob offset of Inl e \<Rightarrow> Inr blob | Inr new_blob \<Rightarrow> Inr new_blob)"
proof (cases "modify_acl_blob_try blob offset")
  case (Inl e)
  then show ?thesis using modify_acl_blob_try_error [OF Inl]
    by (simp add: modify_acl_blob_def)
next
  case (Inr r)
  then show ?thesis by (simp add: modify_acl_blob_def)
qed

lemma modify_acl_blob_try_not_wf:
  assumes "length blob < 4 \<or> take 4 blob \<noteq> [2, 0, 0, 0] \<or> (int (length blob) - 4) mod 8 \<noteq> 0"
  shows "modify_acl_blob_try blob offset = Inr blob"
proof (cases "length blob < 4")
  case True
  then show ?thesis by (simp add: modify_acl_blob_try_def acl_consts)
next
  case False
  then have l4: "length (take 4 blob) = 4" by simp
  have eq: "int (length blob) - 4 = int (length blob - 4)" using False by simp
  have "int ((length blob - 4) mod 8) = int (length blob - 4) mod 8"
    by (simp add: zmod_int)
  then have m: "(int (length blob) - 4) mod 8 \<noteq> 0 \<longleftrightarrow> (length blob - 4) mod 8 \<noteq> 0"
    unfolding eq by linarith
  have v: "struct_unpack_I (take 4 blob) = Inr (le_int (take 4 blob))"
    using l4 by (simp add: struct_unpack_I_def)
  show ?thesis
  proof (cases "take 4 blob = [2, 0, 0, 0]")
    case True
    then have "(length blob - 4) mod 8 \<noteq> 0" using assms False m by simp
    then show ?thesis
      using False v by (simp add: modify_acl_blob_try_def acl_consts True)
  next
    case ne: False
    then have "le_int (take 4 blob) \<noteq> 2" using version_2_iff [OF l4] by simp
    then show ?thesis
      using False by (simp add: modify_acl_blob_try_def v acl_consts)
  qed
qed

lemma ids_fit_iff:
  assumes "acl_well_formed blob"
  shows "ids_fit blob offset \<longleftrightarrow>
         (\<forall>i<acl_num_entries blob. entry_new_id (acl_entry blob i) offset < 2 ^ 32)"
proof -
  have "entry_new_id (acl_entry blob i) offset < 2 ^ 32 \<longleftrightarrow>
        (carries_id (acl_entry blob i) \<longrightarrow>
           shift_id (entry_id (acl_entry blob i)) offset < 2 ^ 32)"
    if "i < acl_num_entries blob" for i
    using entry_id_bounds [OF wf_entry_length [OF assms that]]
    by (simp add: entry_new_id_def)
  then show ?thesis unfolding ids_fit_def by blast
qed

lemma modify_acl_blob_wf:
  assumes "acl_well_formed blob"
  shows "modify_acl_blob blob offset =
           (if ids_fit blob offset then Inr (shifted_blob blob offset) else Inr blob)"
proof (cases "ids_fit blob offset")
  case True
  then have "\<forall>i<acl_num_entries blob. entry_new_id (acl_entry blob i) offset < 2 ^ 32"
    by (simp add: ids_fit_iff [OF assms])
  then have "modify_acl_blob_try blob offset = Inr (shifted_blob blob offset)"
    unfolding modify_acl_blob_try_wf [OF assms] shifted_blob_def by simp
  then show ?thesis using True by (simp add: modify_acl_blob_cases)
next
  case False
  then have "\<not> (\<forall>i<acl_num_entries blob. entry_new_id (acl_entry blob i) offset < 2 ^ 32)"
    by (simp add: ids_fit_iff [OF assms])
  then have "modify_acl_blob_try blob offset = Inl StructError"
    unfolding modify_acl_blob_try_wf [OF assms] by simp
  then show ?thesis using False by (simp add: modify_acl_blob_cases)
qed

lemma length_shifted_blob:
  assumes "acl_well_formed blob"
  shows "length (shifted_blob blob offset) = length blob"
proof -
  let ?cs = "map (\<lambda>i. shifted_entry (acl_entry blob i) offset) [0..<acl_num_entries blob]"
  have "\<forall>c\<in>set ?cs. length c = 8"
    using wf_entry_length [OF assms] by (auto simp: length_shifted_entry)
  then have "length (concat ?cs) = acl_num_entries blob * 8"
    using length_concat_chunks [of ?cs 8] by simp
  moreover have "(length blob - 4) mod 8 = 0" and "4 \<le> length blob"
    using assms by (simp_all add: acl_well_formed_def acl_consts)
  then have "4 + (length blob - 4) div 8 * 8 = length blob" by arith
  ultimately show ?thesis
    using \<open>4 \<le> length blob\<close> by (simp add: shifted_blob_def acl_num_entries_def acl_consts)
qed

lemma acl_entry_shifted_blob:
  assumes "acl_well_formed blob" and "i < acl_num_entries blob"
  shows "acl_entry (shifted_blob blob offset) i = shifted_entry (acl_entry blob i) offset"
proof -
  let ?cs = "map (\<lambda>i. shifted_entry (acl_entry blob i) offset) [0..<acl_num_entries blob]"
  have all8: "\<forall>c\<in>set ?cs. length c = 8"
    using wf_entry_length [OF assms(1)] by (auto simp: length_shifted_entry)
  have "4 \<le> length blob" using assms(1) by (simp add: acl_well_formed_def acl_consts)
  then have "acl_entry (shifted_blob blob offset) i = take 8 (drop (i * 8) (concat ?cs))"
    by (simp add: acl_entry_def shifted_blob_def acl_consts)
  also have "\<dots> = ?cs ! i"
    using assms(2) by (intro chunk_nth [OF all8]) simp
  also have "\<dots> = shifted_entry (acl_entry blob i) offset"
    using assms(2) by simp
  finally show ?thesis .
qed

lemma shifted_entry_fields:
  assumes "length e = 8" and "entry_new_id e offset < 2 ^ 32"
  shows "entry_tag (shifted_entry e offset) = entry_tag e"
    and "entry_perm (shifted_entry e offset) = entry_perm e"
    and "entry_id (shifted_entry e offset) = entry_new_id e offset"
proof -
  show "entry_tag (shifted_entry e offset) = entry_tag e"
    using assms(1) by (simp add: entry_tag_def shifted_entry_def)
  show "entry_perm (shifted_entry e offset) = entry_perm e"
    using assms(1) by (simp add: entry_perm_def shifted_entry_def drop_take)
  have "le_int (le_bytes 4 (entry_new_id e offset)) = entry_new_id e offset"
    using entry_new_id_nonneg [OF assms(1), of offset] assms(2)
    by (intro le_int_le_bytes) simp_all
  then show "entry_id (shifted_entry e offset) = entry_new_id e offset"
    using assms(1) by (simp add: entry_id_def shifted_entry_def length_le_bytes)
qed

lemma shifted_entry_other:
  "length e = 8 \<Longrightarrow> \<not> carries_id e \<Longrightarrow> shifted_entry e offset = e"
  by (simp add: shifted_entry_def entry_new_id_def entry_roundtrip)

lemma shifted_entry_layout:
  "length e = 8 \<Longrightarrow>
   shifted_entry e offset =
     le_bytes 2 (entry_tag e) @ le_bytes 2 (entry_perm e) @ le_bytes 4 (entry_new_id e offset)"
  using entry_head [of e] by (simp add: shifted_entry_def)

lemma acl_entries_concat:
  assumes "acl_well_formed blob"
  shows "take ACL_HEADER_SIZE blob @ concat (map (acl_entry blob) [0..<acl_num_entries blob]) = blob"
proof -
  have "(length blob - 4) mod 8 = 0" and "4 \<le> length blob"
    using assms by (simp_all add: acl_well_formed_def acl_consts)
  then have "length blob - 4 = (length blob - 4) div 8 * 8" by arith
  then have "length (drop 4 blob) = (length blob - 4) div 8 * 8" by simp
  then have "concat (map (\<lambda>i. take 8 (drop (i * 8) (drop 4 blob))) [0..<(length blob - 4) div 8])
      = drop 4 blob"
    by (rule concat_chunks)
  moreover have "acl_entry blob = (\<lambda>i. take 8 (drop (i * 8) (drop 4 blob)))"
    by (rule ext) (simp add: acl_entry_def acl_consts add.commute)
  ultimately show ?thesis
    by (simp add: acl_num_entries_def acl_consts)
qed

lemma example_acl_facts:
  "acl_well_formed example_acl" "acl_num_entries example_acl = 2"
  "carries_id (acl_entry example_acl 0)" "\<not> carries_id (acl_entry example_acl (Suc 0))"
  "entry_id (acl_entry example_acl 0) = 1000"
  "acl_entry example_acl (Suc 0) = [4, 0, 5, 0, 255, 255, 255, 255]"
  by code_simp+

lemma example_acl_fits: "ids_fit example_acl 100000"
  unfolding ids_fit_def example_acl_facts less_2_cases_iff
  using example_acl_facts(3-5) by (auto simp: shift_id_def)

lemma shifted_acl_facts:
  "acl_well_formed shifted_acl" "acl_num_entries shifted_acl = 2"
  "entry_id (acl_entry shifted_acl 0) = 101000"
  "\<not> carries_id (acl_entry shifted_acl (Suc 0))"
  by code_simp+

text \<open>
  C2, as amended. For a well-formed blob and a non-zero offset, when every shifted id
  of a USER or GROUP entry fits the 32-bit id field, the result has the length and the
  header of the input, every entry stands at its original position in the layout
  16-bit tag, 16-bit permission, 32-bit id (little-endian), the id of each USER or
  GROUP entry is \<open>shift_id id offset\<close>, and every other entry is the input entry.
  When some shifted id does not fit, \<^verbatim>\<open>struct.pack\<close> raises and the handler returns
  the input unchanged.
\<close>

theorem modify_acl_blob_shifts_entries:
  assumes "acl_well_formed blob" and "offset \<noteq> 0"
  shows "(ids_fit blob offset \<longrightarrow>
            (\<exists>out. modify_acl_blob blob offset = Inr out \<and>
               length out = length blob \<and>
               take ACL_HEADER_SIZE out = take ACL_HEADER_SIZE blob \<and>
               (\<forall>i<acl_num_entries blob.
                  acl_entry out i =
                    le_bytes 2 (entry_tag (acl_entry blob i)) @
                    le_bytes 2 (entry_perm (acl_entry blob i)) @
                    le_bytes 4 (entry_new_id (acl_entry blob i) offset) \<and>
                  (carries_id (acl_entry blob i) \<longrightarrow>
                     entry_tag (acl_entry out i) = entry_tag (acl_entry blob i) \<and>
                     entry_perm (acl_entry out i) = entry_perm (acl_entry blob i) \<and>
                     entry_id (acl_entry out i) = shift_id (entry_id (acl_entry blob i)) offset) \<and>
                  (\<not> carries_id (acl_entry blob i) \<longrightarrow>
                     acl_entry out i = acl_entry blob i)))) \<and>
         (\<not> ids_fit blob offset \<longrightarrow> modify_acl_blob blob offset = Inr blob)"
proof (intro conjI impI)
  assume fit: "ids_fit blob offset"
  let ?out = "shifted_blob blob offset"
  have res: "modify_acl_blob blob offset = Inr ?out"
    using fit by (simp add: modify_acl_blob_wf [OF assms(1)])
  have hdr: "take ACL_HEADER_SIZE ?out = take ACL_HEADER_SIZE blob"
    using assms(1) by (simp add: shifted_blob_def acl_well_formed_def acl_consts)
  have entries: "acl_entry ?out i =
        le_bytes 2 (entry_tag (acl_entry blob i)) @
        le_bytes 2 (entry_perm (acl_entry blob i)) @
        le_bytes 4 (entry_new_id (acl_entry blob i) offset) \<and>
      (carries_id (acl_entry blob i) \<longrightarrow>
         entry_tag (acl_entry ?out i) = entry_tag (acl_entry blob i) \<and>
         entry_perm (acl_entry ?out i) = entry_perm (acl_entry blob i) \<and>
         entry_id (acl_entry ?out i) = shift_id (entry_id (acl_entry blob i)) offset) \<and>
      (\<not> carries_id (acl_entry blob i) \<longrightarrow> acl_entry ?out i = acl_entry blob i)"
    if i: "i < acl_num_entries blob" for i
  proof -
    let ?e = "acl_entry blob i"
    have len: "length ?e = 8" by (rule wf_entry_length [OF assms(1) i])
    have out_i: "acl_entry ?out i = shifted_entry ?e offset"
      by (rule acl_entry_shifted_blob [OF assms(1) i])
    have small: "entry_new_id ?e offset < 2 ^ 32"
      using fit i by (simp add: ids_fit_iff [OF assms(1)])
    show ?thesis
      unfolding out_i
      using shifted_entry_fields [OF len small] shifted_entry_other [OF len, of offset]
        shifted_entry_layout [OF len, of offset]
      by (cases "carries_id ?e") (simp_all add: entry_new_id_def)
  qed
  show "\<exists>out. modify_acl_blob blob offset = Inr out \<and>
      length out = length blob \<and>
      take ACL_HEADER_SIZE out = take ACL_HEADER_SIZE blob \<and>
      (\<forall>i<acl_num_entries blob.
         acl_entry out i =
           le_bytes 2 (entry_tag (acl_entry blob i)) @
           le_bytes 2 (entry_perm (acl_entry blob i)) @
           le_bytes 4 (entry_new_id (acl_entry blob i) offset) \<and>
         (carries_id (acl_entry blob i) \<longrightarrow>
            entry_tag (acl_entry out i) = entry_tag (acl_entry blob i) \<and>
            entry_perm (acl_entry out i) = entry_perm (acl_entry blob i) \<and>
            entry_id (acl_entry out i) = shift_id (entry_id (acl_entry blob i)) offset) \<and>
         (\<not> carries_id (acl_entry blob i) \<longrightarrow> acl_entry out i = acl_entry blob i))"
    using res length_shifted_blob [OF assms(1), of offset] hdr entries by blast
next
  assume "\<not> ids_fit blob offset"
  then show "modify_acl_blob blob offset = Inr blob"
    by (simp add: modify_acl_blob_wf [OF assms(1)])
qed

lemma overflow_acl_facts:
  "acl_well_formed overflow_acl" "acl_num_entries overflow_acl = 1"
  "carries_id (acl_entry overflow_acl 0)"
  "entry_id (acl_entry overflow_acl 0) = 2000000000"
  by code_simp+

lemma overflow_acl_does_not_fit: "\<not> ids_fit overflow_acl 3000000000"
  unfolding ids_fit_def overflow_acl_facts(2)
  using overflow_acl_facts(3,4) by (auto simp: shift_id_def)

theorem modify_acl_blob_shifts_entries_witness:
  "(\<exists>out. modify_acl_blob example_acl 100000 = Inr out \<and> length out = 20 \<and>
     take 4 out = [2, 0, 0, 0] \<and>
     entry_id (acl_entry out 0) = 101000 \<and>
     acl_entry out 1 = [4, 0, 5, 0, 255, 255, 255, 255]) \<and>
   modify_acl_blob overflow_acl 3000000000 = Inr overflow_acl"
proof -
  have nz: "(100000::int) \<noteq> 0" "(3000000000::int) \<noteq> 0" by simp_all
  have over: "modify_acl_blob overflow_acl 3000000000 = Inr overflow_acl"
    using modify_acl_blob_shifts_entries [OF overflow_acl_facts(1) nz(2)]
      overflow_acl_does_not_fit by blast
  from modify_acl_blob_shifts_entries [OF example_acl_facts(1) nz(1)] example_acl_fits
  obtain out where out: "modify_acl_blob example_acl 100000 = Inr out"
      "length out = length example_acl"
      "take ACL_HEADER_SIZE out = take ACL_HEADER_SIZE example_acl"
    and ent: "\<forall>i<acl_num_entries example_acl.
        acl_entry out i =
           le_bytes 2 (entry_tag (acl_entry example_acl i)) @
           le_bytes 2 (entry_perm (acl_entry example_acl i)) @
           le_bytes 4 (entry_new_id (acl_entry example_acl i) 100000) \<and>
        (carries_id (acl_entry example_acl i) \<longrightarrow>
            entry_tag (acl_entry out i) = entry_tag (acl_entry example_acl i) \<and>
            entry_perm (acl_entry out i) = entry_perm (acl_entry example_acl i) \<and>
            entry_id (acl_entry out i) = shift_id (entry_id (acl_entry example_acl i)) 100000) \<and>
        (\<not> carries_id (acl_entry example_acl i) \<longrightarrow>
            acl_entry out i = acl_entry example_acl i)"
    by blast
  have lt: "0 < acl_num_entries example_acl" "Suc 0 < acl_num_entries example_acl"
    by (simp_all add: example_acl_facts(2))
  from ent lt(1) example_acl_facts(3)
  have "entry_id (acl_entry out 0) = shift_id (entry_id (acl_entry example_acl 0)) 100000"
    by blast
  then have "entry_id (acl_entry out 0) = 101000"
    by (simp add: example_acl_facts(5) shift_id_def)
  moreover from ent lt(2) example_acl_facts(4)
  have "acl_entry out (Suc 0) = acl_entry example_acl (Suc 0)"
    by blast
  then have "acl_entry out 1 = [4, 0, 5, 0, 255, 255, 255, 255]"
    by (simp add: example_acl_facts(6))
  moreover have "length out = 20" "take 4 out = [2, 0, 0, 0]"
    using out(2,3) by (simp_all add: example_acl_def ACL_HEADER_SIZE_def)
  ultimately show ?thesis using out(1) over by blast
qed

text \<open>
  The claim without the bound fails: a USER entry with id 2000000000 under the offset
  3000000000 would get the id 5000000000, which has no 32-bit encoding; the blob comes
  back unchanged, its id field still 2000000000.
\<close>

theorem modify_acl_blob_overflow_counterexample:
  "acl_well_formed overflow_acl \<and>
   carries_id (acl_entry overflow_acl 0) \<and>
   entry_id (acl_entry overflow_acl 0) = 2000000000 \<and>
   shift_id 2000000000 3000000000 = 5000000000 \<and>
   modify_acl_blob overflow_acl 3000000000 = Inr overflow_acl \<and>
   entry_id (acl_entry overflow_acl 0) \<noteq> shift_id (entry_id (acl_entry overflow_acl 0)) 3000000000"
  by code_simp

text \<open>
  C3. For every byte string and every offset \<open>modify_acl_blob\<close> returns (it never
  raises), and it returns its input when the input is shorter than 4 bytes, or its
  first 4 bytes are not the little-endian value 2, or the remaining length is not a
  multiple of 8, or the \<^verbatim>\<open>try\<close> block raises \<^verbatim>\<open>struct.error\<close>.
\<close>

theorem modify_acl_blob_pass_through:
  "(\<exists>out. modify_acl_blob blob offset = Inr out) \<and>
   (length blob < 4 \<or> take 4 blob \<noteq> [2, 0, 0, 0] \<or>
    (int (length blob) - 4) mod 8 \<noteq> 0 \<or>
    modify_acl_blob_try blob offset = Inl StructError
      \<longrightarrow> modify_acl_blob blob offset = Inr blob)"
proof (intro conjI impI)
  show "\<exists>out. modify_acl_blob blob offset = Inr out"
    by (cases "modify_acl_blob_try blob offset") (simp_all add: modify_acl_blob_cases)
next
  assume a: "length blob < 4 \<or> take 4 blob \<noteq> [2, 0, 0, 0] \<or>
    (int (length blob) - 4) mod 8 \<noteq> 0 \<or>
    modify_acl_blob_try blob offset = Inl StructError"
  show "modify_acl_blob blob offset = Inr blob"
  proof (cases "modify_acl_blob_try blob offset = Inl StructError")
    case True
    then show ?thesis by (simp add: modify_acl_blob_cases)
  next
    case False
    with a have "length blob < 4 \<or> take 4 blob \<noteq> [2, 0, 0, 0] \<or>
        (int (length blob) - 4) mod 8 \<noteq> 0" by simp
    then have "modify_acl_blob_try blob offset = Inr blob"
      by (rule modify_acl_blob_try_not_wf)
    then show ?thesis by (simp add: modify_acl_blob_cases)
  qed
qed

theorem modify_acl_blob_pass_through_witness:
  "modify_acl_blob [2, 0, 0] 100000 = Inr [2, 0, 0] \<and>
   modify_acl_blob [3, 0, 0, 0, 2, 0, 7, 0, 232, 3, 0, 0] 100000
     = Inr [3, 0, 0, 0, 2, 0, 7, 0, 232, 3, 0, 0] \<and>
   modify_acl_blob [2, 0, 0, 0, 2, 0, 7, 0, 232, 3, 0] 100000
     = Inr [2, 0, 0, 0, 2, 0, 7, 0, 232, 3, 0] \<and>
   modify_acl_blob_try overflow_acl 3000000000 = Inl StructError \<and>
   modify_acl_blob overflow_acl 3000000000 = Inr overflow_acl"
proof -
  have 1: "modify_acl_blob [2, 0, 0] 100000 = Inr [2, 0, 0]"
    using modify_acl_blob_pass_through [of "[2, 0, 0]" 100000] by simp
  have 2: "modify_acl_blob [3, 0, 0, 0, 2, 0, 7, 0, 232, 3, 0, 0] 100000
     = Inr [3, 0, 0, 0, 2, 0, 7, 0, 232, 3, 0, 0]"
    using modify_acl_blob_pass_through [of "[3, 0, 0, 0, 2, 0, 7, 0, 232, 3, 0, 0]" 100000]
    by simp
  have 3: "modify_acl_blob [2, 0, 0, 0, 2, 0, 7, 0, 232, 3, 0] 100000
     = Inr [2, 0, 0, 0, 2, 0, 7, 0, 232, 3, 0]"
    using modify_acl_blob_pass_through [of "[2, 0, 0, 0, 2, 0, 7, 0, 232, 3, 0]" 100000]
    by simp
  have t: "modify_acl_blob_try overflow_acl 3000000000 = Inl StructError"
    by code_simp
  have 4: "modify_acl_blob overflow_acl 3000000000 = Inr overflow_acl"
    using modify_acl_blob_pass_through [of overflow_acl 3000000000] t by blast
  from 1 2 3 t 4 show ?thesis by blast
qed

text \<open>
  C8. For a well-formed blob and a non-zero offset, when every USER or GROUP entry has
  an id outside the triggering range of the shift (\<open>id \<ge> |offset|\<close> for a positive
  offset, \<open>id < |offset|\<close> for a negative one), the result is the input.
\<close>

theorem modify_acl_blob_identity_outside_range:
  assumes "acl_well_formed blob" and "offset \<noteq> 0"
    and "\<forall>i<acl_num_entries blob. carries_id (acl_entry blob i) \<longrightarrow>
           (0 < offset \<longrightarrow> \<bar>offset\<bar> \<le> entry_id (acl_entry blob i)) \<and>
           (offset < 0 \<longrightarrow> entry_id (acl_entry blob i) < \<bar>offset\<bar>)"
  shows "modify_acl_blob blob offset = Inr blob"
proof -
  have same: "entry_new_id (acl_entry blob i) offset = entry_id (acl_entry blob i)"
    if "i < acl_num_entries blob" for i
    using assms(2,3) that by (auto simp: entry_new_id_def shift_id_def)
  have ent: "shifted_entry (acl_entry blob i) offset = acl_entry blob i"
    if "i < acl_num_entries blob" for i
    using entry_roundtrip [OF wf_entry_length [OF assms(1) that]]
    by (simp add: shifted_entry_def same [OF that])
  have fit: "ids_fit blob offset"
    unfolding ids_fit_iff [OF assms(1)]
    using same entry_id_bounds [OF wf_entry_length [OF assms(1)]] by simp
  have "map (\<lambda>i. shifted_entry (acl_entry blob i) offset) [0..<acl_num_entries blob] =
        map (acl_entry blob) [0..<acl_num_entries blob]"
    using ent by simp
  then have "shifted_blob blob offset = blob"
    unfolding shifted_blob_def by (simp only: acl_entries_concat [OF assms(1)])
  then show ?thesis using fit by (simp add: modify_acl_blob_wf [OF assms(1)])
qed

theorem modify_acl_blob_identity_outside_range_witness:
  "modify_acl_blob shifted_acl 100000 = Inr shifted_acl \<and>
   modify_acl_blob example_acl (- 100000) = Inr example_acl"
proof -
  have nz: "(100000::int) \<noteq> 0" "(- 100000::int) \<noteq> 0" by simp_all
  have up: "\<forall>i<acl_num_entries shifted_acl. carries_id (acl_entry shifted_acl i) \<longrightarrow>
           (0 < (100000::int) \<longrightarrow> \<bar>100000\<bar> \<le> entry_id (acl_entry shifted_acl i)) \<and>
           ((100000::int) < 0 \<longrightarrow> entry_id (acl_entry shifted_acl i) < \<bar>100000\<bar>)"
    unfolding shifted_acl_facts(2) less_2_cases_iff
    using shifted_acl_facts(3,4) by auto
  have down: "\<forall>i<acl_num_entries example_acl. carries_id (acl_entry example_acl i) \<longrightarrow>
           (0 < (- 100000::int) \<longrightarrow> \<bar>- 100000\<bar> \<le> entry_id (acl_entry example_acl i)) \<and>
           ((- 100000::int) < 0 \<longrightarrow> entry_id (acl_entry example_acl i) < \<bar>- 100000\<bar>)"
    unfolding example_acl_facts(2) less_2_cases_iff
    using example_acl_facts(4,5) by auto
  from modify_acl_blob_identity_outside_range [OF shifted_acl_facts(1) nz(1) up]
    modify_acl_blob_identity_outside_range [OF example_acl_facts(1) nz(2) down]
  show ?thesis by simp
qed

section \<open>Properties of the per-entry shift protocol\<close>

lemma invoke_simps:
  "inodes (invoke c w) = inodes w" "fails (invoke c w) = fails w"
  "chown_side_effect (invoke c w) = chown_side_effect w" "DEBUG (invoke c w) = DEBUG w"
  "calls (invoke c w) = calls w @ [c]" "stderr (invoke c w) = stderr w"
  "stdout (invoke c w) = stdout w"
  by (simp_all add: invoke_def)

lemma lookup_inode_invoke: "lookup_inode c path (invoke c' w) = lookup_inode c path w"
  by (simp add: lookup_inode_def invoke_simps)

lemma lookup_inode_calls: "lookup_inode c path (w\<lparr>calls := cs\<rparr>) = lookup_inode c path w"
  by (simp add: lookup_inode_def)

lemma lookup_inode_error: "lookup_inode c path w = Inl e \<Longrightarrow> e = OSError"
  by (simp add: lookup_inode_def split: if_splits option.splits)

lemma xattr_read_calls: "xattr_read (w\<lparr>calls := cs\<rparr>) path name = xattr_read w path name"
  by (simp add: xattr_read_def lookup_inode_calls)

lemma backup_of_calls: "backup_of (w\<lparr>calls := cs\<rparr>) path offset names acc = backup_of w path offset names acc"
  by (induction names arbitrary: acc) (simp_all add: xattr_read_calls)

lemma os_getxattr_read:
  "os_getxattr path name w =
     (case xattr_read w path name of None \<Rightarrow> Inl OSError | Some val \<Rightarrow> Inr val,
      invoke (Getxattr path name) w)"
proof (cases "lookup_inode (Getxattr path name) path w")
  case (Inl e)
  then show ?thesis using lookup_inode_error [OF Inl]
    by (simp add: os_getxattr_def xattr_read_def)
next
  case (Inr i)
  then show ?thesis by (simp add: os_getxattr_def xattr_read_def)
qed

lemma modify_acl_blob_value:
  "modify_acl_blob val offset =
     Inr (case modify_acl_blob val offset of Inl e \<Rightarrow> val | Inr shifted \<Rightarrow> shifted)"
  by (cases "modify_acl_blob_try val offset") (simp_all add: modify_acl_blob_cases)

lemma backup_one_read:
  "backup_one path offset name acc w =
     (case xattr_read w path name of
        None \<Rightarrow> (Some OSError, acc, invoke (Getxattr path name) w)
      | Some val \<Rightarrow>
          (None, AList.update name (backup_value name val offset) acc,
           invoke (Getxattr path name) w))"
proof (cases "xattr_read w path name")
  case None
  then show ?thesis by (simp add: backup_one_def os_getxattr_read)
next
  case (Some val)
  obtain s where s: "modify_acl_blob val offset = Inr s"
    using modify_acl_blob_value [of val offset] by blast
  show ?thesis using Some s
    by (simp add: backup_one_def os_getxattr_read backup_value_def)
qed

lemma backup_loop_char:
  "backup_loop path offset names acc w =
     (None, backup_of w path offset names acc,
      w\<lparr>calls := calls w @ map (Getxattr path) names\<rparr>)"
proof (induction names arbitrary: acc w)
  case Nil
  show ?case by simp
next
  case (Cons name names)
  show ?case
    by (cases "xattr_read w path name")
       (simp_all add: backup_one_read Cons.IH invoke_def backup_of_calls)
qed

lemma xattr_names_calls: "xattr_names (w\<lparr>calls := cs\<rparr>) path = xattr_names w path"
  by (simp add: xattr_names_def lookup_inode_calls)

lemma read_xattrs_char:
  "read_xattrs path offset w =
     (None, backup_of w path offset (xattr_names w path) [],
      w\<lparr>calls := calls w @ Listxattr path # map (Getxattr path) (xattr_names w path)\<rparr>)"
proof (cases "lookup_inode (Listxattr path) path w")
  case (Inl e)
  then show ?thesis using lookup_inode_error [OF Inl]
    by (simp add: read_xattrs_def os_listxattr_def xattr_names_def invoke_def)
next
  case (Inr i)
  then show ?thesis
    by (simp add: read_xattrs_def os_listxattr_def xattr_names_def backup_loop_char
        invoke_def backup_of_calls)
qed

lemma os_lchown_char:
  "inodes w path = Some i \<Longrightarrow>
   os_lchown path uid gid w =
     (if \<not> (lchown_accepts uid \<and> lchown_accepts gid)
      then (Inl OverflowError, invoke (Lchown path uid gid) w)
      else if fails w (Lchown path uid gid)
      then (Inl OSError, invoke (Lchown path uid gid) w)
      else (Inr (),
            invoke (Lchown path uid gid)
              (w\<lparr>inodes := (inodes w)
                   (path \<mapsto> (chown_side_effect w i)
                      \<lparr>st_uid := lchown_sets (st_uid i) uid,
                       st_gid := lchown_sets (st_gid i) gid\<rparr>)\<rparr>)))"
  by (simp add: os_lchown_def lookup_inode_def)

lemma os_chmod_char:
  "inodes w path = Some i \<Longrightarrow>
   os_chmod path mode w =
     (if fails w (Chmod path mode) then (Inl OSError, invoke (Chmod path mode) w)
      else (Inr (),
            invoke (Chmod path mode)
              (w\<lparr>inodes := (inodes w)
                   (path \<mapsto> i\<lparr>st_mode := S_IFMT (st_mode i) OR S_IMODE mode\<rparr>)\<rparr>)))"
  by (simp add: os_chmod_def lookup_inode_def)

lemma os_setxattr_char:
  "inodes w path = Some i \<Longrightarrow>
   os_setxattr path name val w =
     (if fails w (Setxattr path name val)
      then (Inl OSError, invoke (Setxattr path name val) w)
      else (Inr (),
            invoke (Setxattr path name val)
              (w\<lparr>inodes := (inodes w)
                   (path \<mapsto> i\<lparr>xattrs := AList.update name val (xattrs i)\<rparr>)\<rparr>)))"
  by (simp add: os_setxattr_def lookup_inode_def)

lemma restore_mode_char:
  "inodes w path = Some i \<Longrightarrow>
   restore_mode path old_mode w =
     (None,
      if fails w (Chmod path (S_IMODE old_mode))
      then w\<lparr>calls := calls w @ [Chmod path (S_IMODE old_mode)],
             stderr := stderr w @ [Warning_mode path]\<rparr>
      else w\<lparr>calls := calls w @ [Chmod path (S_IMODE old_mode)],
             inodes := (inodes w)
               (path \<mapsto> i\<lparr>st_mode := S_IFMT (st_mode i) OR S_IMODE (S_IMODE old_mode)\<rparr>)\<rparr>)"
  by (simp add: restore_mode_def os_chmod_char invoke_def)

lemma restore_xattrs_char:
  assumes "inodes w path = Some i"
  shows "fst (restore_xattrs path backup w) = None \<and>
     calls (snd (restore_xattrs path backup w)) = calls w @ setxattr_calls path backup \<and>
     stderr (snd (restore_xattrs path backup w)) = stderr w @ setxattr_warnings w path backup \<and>
     stdout (snd (restore_xattrs path backup w)) = stdout w \<and>
     DEBUG (snd (restore_xattrs path backup w)) = DEBUG w \<and>
     fails (snd (restore_xattrs path backup w)) = fails w \<and>
     owner_mode (snd (restore_xattrs path backup w)) path = owner_mode w path \<and>
     (\<forall>p. p \<noteq> path \<longrightarrow> inodes (snd (restore_xattrs path backup w)) p = inodes w p)"
  using assms
proof (induction backup arbitrary: w i)
  case Nil
  show ?case by (simp add: setxattr_calls_def setxattr_warnings_def)
next
  case (Cons nv backup)
  obtain name val where nv: "nv = (name, val)" by (cases nv)
  show ?case
  proof (cases "fails w (Setxattr path name val)")
    case True
    let ?w1 = "(invoke (Setxattr path name val) w)\<lparr>stderr := stderr w @ [Warning_xattr name path]\<rparr>"
    have step: "restore_xattrs path (nv # backup) w = restore_xattrs path backup ?w1"
      using True Cons.prems by (simp add: nv os_setxattr_char invoke_simps)
    have "inodes ?w1 path = Some i" using Cons.prems by (simp add: invoke_simps)
    from Cons.IH [OF this] show ?thesis
      unfolding step using True
      by (simp add: nv invoke_simps setxattr_calls_def setxattr_warnings_def owner_mode_def)
  next
    case False
    let ?i1 = "i\<lparr>xattrs := AList.update name val (xattrs i)\<rparr>"
    let ?w1 = "invoke (Setxattr path name val) (w\<lparr>inodes := (inodes w)(path \<mapsto> ?i1)\<rparr>)"
    have step: "restore_xattrs path (nv # backup) w = restore_xattrs path backup ?w1"
      using False Cons.prems by (simp add: nv os_setxattr_char)
    have "inodes ?w1 path = Some ?i1" by (simp add: invoke_simps)
    from Cons.IH [OF this] show ?thesis
      unfolding step using False Cons.prems
      by (simp add: nv invoke_simps setxattr_calls_def setxattr_warnings_def owner_mode_def)
  qed
qed

lemma S_IMODE_idem: "S_IMODE (S_IMODE m) = S_IMODE m"
  by (simp add: S_IMODE_def and.assoc)

lemma os_lstat_ok:
  "\<not> fails w (Lstat path) \<Longrightarrow> inodes w path = Some i \<Longrightarrow>
   os_lstat path w = (Inr i, invoke (Lstat path) w)"
  by (simp add: os_lstat_def lookup_inode_def)


lemma shift_file_unchanged:
  assumes "\<not> fails w (Lstat path)" and "inodes w path = Some i"
    and "shift_id (st_uid i) offset = st_uid i" and "shift_id (st_gid i) offset = st_gid i"
  shows "shift_file path offset w = (None, w\<lparr>calls := calls w @ [Lstat path]\<rparr>)"
  using assms(3,4)
  by (simp add: shift_file_def shift_file_try_def os_lstat_ok [OF assms(1,2)] invoke_def)


lemma shift_file_try_changed:
  assumes "\<not> fails w (Lstat path)" and "inodes w path = Some i"
    and "shift_id (st_uid i) offset \<noteq> st_uid i \<or> shift_id (st_gid i) offset \<noteq> st_gid i"
  shows "shift_file_try path offset w =
     (case os_lchown path (shift_id (st_uid i) offset) (shift_id (st_gid i) offset)
             (after_reads w path) of
        (Inl e, w3) \<Rightarrow> (Some e, w3)
      | (Inr u, w3) \<Rightarrow>
          (case (if \<not> S_ISLNK (st_mode i) then restore_mode path (st_mode i) w3
                 else (None, w3)) of
             (Some e, w4) \<Rightarrow> (Some e, w4)
           | (None, w4) \<Rightarrow>
               (case restore_xattrs path
                       (backup_of w path offset (xattr_names w path) []) w4 of
                  (Some e, w5) \<Rightarrow> (Some e, w5)
                | (None, w5) \<Rightarrow>
                    (None,
                     if DEBUG w5
                     then w5\<lparr>stdout := stdout w5 @
                            [Shifted path (st_uid i) (st_gid i) (shift_id (st_uid i) offset)
                               (shift_id (st_gid i) offset) (st_mode i)]\<rparr>
                     else w5))))"
proof -
  have neq: "(shift_id (st_uid i) offset = st_uid i \<and> shift_id (st_gid i) offset = st_gid i)
      = False"
    using assms(3) by blast
  have w2: "(invoke (Lstat path) w)\<lparr>calls := calls (invoke (Lstat path) w) @
        Listxattr path # map (Getxattr path) (xattr_names (invoke (Lstat path) w) path)\<rparr>
      = after_reads w path"
    by (simp add: after_reads_def invoke_def xattr_names_calls)
  have b: "backup_of (invoke (Lstat path) w) path offset
        (xattr_names (invoke (Lstat path) w) path) []
      = backup_of w path offset (xattr_names w path) []"
    by (simp add: invoke_def xattr_names_calls backup_of_calls)
  show ?thesis
    by (simp only: shift_file_try_def os_lstat_ok [OF assms(1,2)] read_xattrs_char w2 b
        Let_def neq prod.case sum.case if_False option.case)
qed

lemma after_reads_simps:
  "inodes (after_reads w path) = inodes w" "fails (after_reads w path) = fails w"
  "chown_side_effect (after_reads w path) = chown_side_effect w"
  "DEBUG (after_reads w path) = DEBUG w"
  "stderr (after_reads w path) = stderr w" "stdout (after_reads w path) = stdout w"
  "calls (after_reads w path) =
     calls w @ [Lstat path, Listxattr path] @ map (Getxattr path) (xattr_names w path)"
  by (simp_all add: after_reads_def)



lemma setxattr_warnings_cong:
  "fails w' = fails w \<Longrightarrow> setxattr_warnings w' path backup = setxattr_warnings w path backup"
  by (simp add: setxattr_warnings_def)

lemma shift_file_lchown_ok:
  assumes "\<not> fails w (Lstat path)" and "inodes w path = Some i"
    and "shift_id (st_uid i) offset \<noteq> st_uid i \<or> shift_id (st_gid i) offset \<noteq> st_gid i"
    and "\<not> fails w (Lchown path (shift_id (st_uid i) offset) (shift_id (st_gid i) offset))"
    and "lchown_accepts (shift_id (st_uid i) offset)"
    and "lchown_accepts (shift_id (st_gid i) offset)"
  shows "fst (shift_file path offset w) = None"
    and "calls (snd (shift_file path offset w)) =
           calls w @ [Lstat path, Listxattr path] @
           map (Getxattr path) (xattr_names w path) @
           [Lchown path (shift_id (st_uid i) offset) (shift_id (st_gid i) offset)] @
           (if S_ISLNK (st_mode i) then [] else [Chmod path (S_IMODE (st_mode i))]) @
           setxattr_calls path (backup_of w path offset (xattr_names w path) [])"
    and "stderr (snd (shift_file path offset w)) =
           stderr w @
           (if \<not> S_ISLNK (st_mode i) \<and> fails w (Chmod path (S_IMODE (st_mode i)))
            then [Warning_mode path] else []) @
           setxattr_warnings w path (backup_of w path offset (xattr_names w path) [])"
    and "stdout (snd (shift_file path offset w)) =
           stdout w @
           (if DEBUG w
            then [Shifted path (st_uid i) (st_gid i) (shift_id (st_uid i) offset)
                    (shift_id (st_gid i) offset) (st_mode i)]
            else [])"
    and "owner_mode (snd (shift_file path offset w)) path =
           Some (lchown_sets (st_uid i) (shift_id (st_uid i) offset),
                 lchown_sets (st_gid i) (shift_id (st_gid i) offset),
                 if S_ISLNK (st_mode i) \<or> fails w (Chmod path (S_IMODE (st_mode i)))
                 then st_mode (chown_side_effect w i)
                 else S_IFMT (st_mode (chown_side_effect w i)) OR S_IMODE (st_mode i))"
    and "fails (snd (shift_file path offset w)) = fails w"
    and "p \<noteq> path \<Longrightarrow> inodes (snd (shift_file path offset w)) p = inodes w p"
proof -
  let ?nu = "shift_id (st_uid i) offset" and ?ng = "shift_id (st_gid i) offset"
  let ?backup = "backup_of w path offset (xattr_names w path) []"
  let ?w2 = "after_reads w path"
  define i3 where "i3 = (chown_side_effect w i)
      \<lparr>st_uid := lchown_sets (st_uid i) ?nu, st_gid := lchown_sets (st_gid i) ?ng\<rparr>"
  define w3 where "w3 = invoke (Lchown path ?nu ?ng) (?w2\<lparr>inodes := (inodes ?w2)(path \<mapsto> i3)\<rparr>)"
  define r4 where "r4 = (if \<not> S_ISLNK (st_mode i) then restore_mode path (st_mode i) w3
                         else (None, w3))"
  define w4 where "w4 = snd r4"
  define m4 where "m4 = (if S_ISLNK (st_mode i) \<or> fails w (Chmod path (S_IMODE (st_mode i)))
                 then st_mode (chown_side_effect w i)
                 else S_IFMT (st_mode (chown_side_effect w i)) OR S_IMODE (st_mode i))"
  define w5 where "w5 = snd (restore_xattrs path ?backup w4)"
  have i2: "inodes ?w2 path = Some i" using assms(2) by (simp add: after_reads_simps)
  have lch: "os_lchown path ?nu ?ng ?w2 = (Inr (), w3)"
    using assms(4,5,6) by (simp add: os_lchown_char [OF i2] after_reads_simps w3_def i3_def)
  have w3: "inodes w3 path = Some i3" "fails w3 = fails w" "DEBUG w3 = DEBUG w"
    "stderr w3 = stderr w" "stdout w3 = stdout w"
    "calls w3 = calls w @ [Lstat path, Listxattr path] @
       map (Getxattr path) (xattr_names w path) @ [Lchown path ?nu ?ng]"
    by (simp_all add: w3_def invoke_simps after_reads_simps)
  have r4: "r4 = (None, w4)"
    by (simp add: r4_def w4_def restore_mode_char [OF w3(1)])
  have w4: "fails w4 = fails w" "DEBUG w4 = DEBUG w" "stdout w4 = stdout w"
    "stderr w4 = stderr w @
       (if \<not> S_ISLNK (st_mode i) \<and> fails w (Chmod path (S_IMODE (st_mode i)))
        then [Warning_mode path] else [])"
    "calls w4 = calls w3 @ (if S_ISLNK (st_mode i) then [] else [Chmod path (S_IMODE (st_mode i))])"
    by (simp_all add: w4_def r4_def restore_mode_char [OF w3(1)] w3(2-5))
  have i4: "inodes w4 path = Some (i3\<lparr>st_mode := m4\<rparr>)"
    by (simp add: w4_def r4_def restore_mode_char [OF w3(1)] w3(1,2) m4_def i3_def S_IMODE_idem)
  note rx = restore_xattrs_char [OF i4, of ?backup, folded w5_def]
  have r5: "restore_xattrs path ?backup w4 = (None, w5)"
    using rx by (simp add: w5_def prod_eq_iff)
  have body: "shift_file_try path offset w =
      (None, if DEBUG w5
             then w5\<lparr>stdout := stdout w5 @ [Shifted path (st_uid i) (st_gid i) ?nu ?ng (st_mode i)]\<rparr>
             else w5)"
    unfolding shift_file_try_changed [OF assms(1-3)] lch
    using r4 r5 by (simp add: r4_def)
  have res: "shift_file path offset w =
      (None, if DEBUG w
             then w5\<lparr>stdout := stdout w5 @ [Shifted path (st_uid i) (st_gid i) ?nu ?ng (st_mode i)]\<rparr>
             else w5)"
    using rx by (simp add: shift_file_def body w4(2))
  show "fst (shift_file path offset w) = None" by (simp add: res)
  show "calls (snd (shift_file path offset w)) =
           calls w @ [Lstat path, Listxattr path] @
           map (Getxattr path) (xattr_names w path) @ [Lchown path ?nu ?ng] @
           (if S_ISLNK (st_mode i) then [] else [Chmod path (S_IMODE (st_mode i))]) @
           setxattr_calls path ?backup"
    using rx by (simp add: res w4(5) w3(6))
  show "stderr (snd (shift_file path offset w)) =
           stderr w @
           (if \<not> S_ISLNK (st_mode i) \<and> fails w (Chmod path (S_IMODE (st_mode i)))
            then [Warning_mode path] else []) @
           setxattr_warnings w path ?backup"
    using rx by (simp add: res w4(4) setxattr_warnings_cong [OF w4(1)])
  show "stdout (snd (shift_file path offset w)) =
           stdout w @
           (if DEBUG w
            then [Shifted path (st_uid i) (st_gid i) ?nu ?ng (st_mode i)]
            else [])"
    using rx by (simp add: res w4(3))
  have "owner_mode w5 path =
      Some (lchown_sets (st_uid i) ?nu, lchown_sets (st_gid i) ?ng, m4)"
    using rx by (simp add: owner_mode_def i4 i3_def)
  then show "owner_mode (snd (shift_file path offset w)) path =
           Some (lchown_sets (st_uid i) ?nu, lchown_sets (st_gid i) ?ng,
                 if S_ISLNK (st_mode i) \<or> fails w (Chmod path (S_IMODE (st_mode i)))
                 then st_mode (chown_side_effect w i)
                 else S_IFMT (st_mode (chown_side_effect w i)) OR S_IMODE (st_mode i))"
    by (simp add: res owner_mode_def m4_def)
  show "fails (snd (shift_file path offset w)) = fails w"
    using rx by (simp add: res w4(1))
  have o3: "inodes w3 p = inodes w p" if "p \<noteq> path" for p
    using that by (simp add: w3_def invoke_simps after_reads_simps)
  have o4: "inodes w4 p = inodes w3 p" if "p \<noteq> path" for p
    using that by (simp add: w4_def r4_def restore_mode_char [OF w3(1)])
  show "inodes (snd (shift_file path offset w)) p = inodes w p" if "p \<noteq> path"
    using rx that by (simp add: res o3 o4)
qed

lemma update_fresh: "k \<notin> fst ` set al \<Longrightarrow> AList.update k v al = al @ [(k, v)]"
  by (induction al) auto

lemma backup_set_Cons:
  "backup_set w path offset (name # names) =
     (case xattr_read w path name of
        None \<Rightarrow> backup_set w path offset names
      | Some val \<Rightarrow> (name, backup_value name val offset) # backup_set w path offset names)"
  by (simp add: backup_set_def map_filter_simps split: option.splits)

lemma backup_of_distinct:
  "distinct names \<Longrightarrow> set names \<inter> fst ` set acc = {} \<Longrightarrow>
   backup_of w path offset names acc = acc @ backup_set w path offset names"
proof (induction names arbitrary: acc)
  case Nil
  show ?case by (simp add: backup_set_def map_filter_simps)
next
  case (Cons name names)
  show ?case
  proof (cases "xattr_read w path name")
    case None
    then show ?thesis using Cons.prems by (simp add: Cons.IH backup_set_Cons)
  next
    case (Some val)
    have fresh: "name \<notin> fst ` set acc" using Cons.prems(2) by auto
    have "set names \<inter> fst ` set (acc @ [(name, backup_value name val offset)]) = {}"
      using Cons.prems by auto
    then show ?thesis
      using Cons.prems(1) Some
      by (simp add: update_fresh [OF fresh] Cons.IH backup_set_Cons)
  qed
qed

lemma backup_set_kept:
  assumes "\<not> fails w (Listxattr path)" and "inodes w path = Some i"
    and "distinct (map fst (xattrs i))" and "set ys \<subseteq> set (xattrs i)"
  shows "backup_set w path offset (map fst ys) = kept_xattrs w path offset ys"
  using assms(4)
proof (induction ys)
  case Nil
  show ?case by (simp add: backup_set_def kept_xattrs_def map_filter_simps)
next
  case (Cons nv ys)
  obtain name val where nv: "nv = (name, val)" by (cases nv)
  have "(name, val) \<in> set (xattrs i)" using Cons.prems nv by simp
  then have "map_of (xattrs i) name = Some val"
    using assms(3) by (rule map_of_is_SomeI [rotated])
  then have rd: "xattr_read w path name =
      (if fails w (Getxattr path name) then None else Some val)"
    using assms(2) by (simp add: xattr_read_def lookup_inode_def)
  have "backup_set w path offset (map fst ys) = kept_xattrs w path offset ys"
    using Cons.prems by (intro Cons.IH) simp
  then show ?case
    by (simp add: nv backup_set_Cons rd kept_xattrs_def)
qed

lemma backup_of_kept:
  assumes "\<not> fails w (Listxattr path)" and "inodes w path = Some i"
    and "distinct (map fst (xattrs i))"
  shows "xattr_names w path = map fst (xattrs i)"
    and "backup_of w path offset (xattr_names w path) [] = kept_xattrs w path offset (xattrs i)"
proof -
  show n: "xattr_names w path = map fst (xattrs i)"
    using assms(1,2) by (simp add: xattr_names_def lookup_inode_def)
  show "backup_of w path offset (xattr_names w path) [] = kept_xattrs w path offset (xattrs i)"
    unfolding n
    using backup_of_distinct [OF assms(3), of "[]" w path offset]
      backup_set_kept [OF assms, of "xattrs i" offset]
    by simp
qed

lemma S_IMODE_chmod: "S_IMODE (S_IFMT a OR S_IMODE b) = S_IMODE b"
  by (simp add: S_IMODE_def S_IFMT_def bit.conj_disj_distrib2 and.assoc)

lemma example_first_run:
  "inodes (snd (shift_file ''/srv/app'' 100000 example_world)) ''/srv/app'' =
     Some \<lparr>st_uid = 101000, st_gid = 101000, st_mode = 36333,
           xattrs = [(''user.note'', [1, 2]), (''system.posix_acl_access'', shifted_acl)]\<rparr>"
  "\<not> fails (snd (shift_file ''/srv/app'' 100000 example_world)) (Lstat ''/srv/app'')"
  "calls (snd (shift_file ''/srv/app'' 100000 example_world)) =
     [Lstat ''/srv/app'', Listxattr ''/srv/app'',
      Getxattr ''/srv/app'' ''user.note'', Getxattr ''/srv/app'' ''system.posix_acl_access'',
      Lchown ''/srv/app'' 101000 101000, Chmod ''/srv/app'' 3565,
      Setxattr ''/srv/app'' ''user.note'' [1, 2],
      Setxattr ''/srv/app'' ''system.posix_acl_access'' shifted_acl]"
  by code_simp+

lemma new_calls_append: "calls w' = calls w @ cs \<Longrightarrow> new_calls w w' = cs"
  by (simp add: new_calls_def)

lemma example_world_facts:
  "\<not> fails example_world (Lstat ''/srv/app'')"
  "inodes example_world ''/srv/app'' = Some example_inode"
  "shift_id (st_uid example_inode) 100000 = 101000"
  "shift_id (st_gid example_inode) 100000 = 101000"
  "st_uid example_inode = 1000" "st_gid example_inode = 1000"
  "st_mode example_inode = 36333"
  "\<not> S_ISLNK (st_mode example_inode)"
  "S_IMODE (st_mode example_inode) = 3565"
  "\<not> fails example_world c"
  "\<not> fails example_world (Lstat ''/srv/link'')"
  "inodes example_world ''/srv/link'' = Some symlink_inode"
  "shift_id (st_uid symlink_inode) 100000 = 101000"
  "shift_id (st_gid symlink_inode) 100000 = 101000"
  "st_uid symlink_inode = 1000" "st_gid symlink_inode = 1000"
  "S_ISLNK (st_mode symlink_inode)"
  "st_mode (chown_side_effect example_world example_inode) = 33261"
  "S_IMODE (st_mode (chown_side_effect example_world example_inode)) = 493"
  "lchown_accepts (shift_id (st_uid example_inode) 100000)"
  "lchown_accepts (shift_id (st_gid example_inode) 100000)"
  "lchown_accepts (shift_id (st_uid symlink_inode) 100000)"
  "lchown_accepts (shift_id (st_gid symlink_inode) 100000)"
  "lchown_sets (st_uid example_inode) 101000 = 101000"
  "lchown_sets (st_gid example_inode) 101000 = 101000"
  by (simp_all add: example_world_def example_inode_def symlink_inode_def shift_id_def
      S_ISLNK_def S_IFMT_def S_IMODE_def linux_chown_def lchown_accepts_def lchown_sets_def)

lemma failing_world_facts:
  "\<not> fails failing_world (Lstat ''/srv/app'')"
  "inodes failing_world ''/srv/app'' = Some example_inode"
  "\<not> fails failing_world (Listxattr ''/srv/app'')"
  "distinct (map fst (xattrs example_inode))"
  "\<not> fails failing_world (Lchown ''/srv/app'' a b)"
  "\<not> fails failing_world (Chmod ''/srv/app'' m)"
  "fails failing_world (Getxattr ''/srv/app'' ''user.note'')"
  "stderr failing_world = []" "stdout failing_world = []" "\<not> DEBUG failing_world"
  "\<not> fails failing_world (Setxattr ''/srv/app'' name val)"
  by (simp_all add: failing_world_def example_world_def example_inode_def)

lemma failing_world_kept:
  "kept_xattrs failing_world ''/srv/app'' 100000 (xattrs example_inode) =
     [(''system.posix_acl_access'', shifted_acl)]"
  by code_simp

text \<open>
  A second run with the same positive offset, after a first run whose change of
  ownership went through (ids below \<open>2^32 - 1\<close>), stops after its \<^verbatim>\<open>lstat\<close>. With a negative offset a
  second run can shift again: 1000 goes to 600 and then to 200 under the offset
  \<open>-400\<close>.
\<close>

lemma shift_file_second_run:
  assumes "\<not> fails w (Lstat path)" and "inodes w path = Some i"
    and "0 \<le> st_uid i" and "0 \<le> st_gid i" and "0 < offset"
    and "\<not> fails w (Lchown path (shift_id (st_uid i) offset) (shift_id (st_gid i) offset))"
    and "shift_id (st_uid i) offset < 4294967295" and "shift_id (st_gid i) offset < 4294967295"
  shows "shift_file path offset (snd (shift_file path offset w)) =
     (None, (snd (shift_file path offset w))
              \<lparr>calls := calls (snd (shift_file path offset w)) @ [Lstat path]\<rparr>)"
proof (cases "shift_id (st_uid i) offset = st_uid i \<and> shift_id (st_gid i) offset = st_gid i")
  case True
  then have first: "snd (shift_file path offset w) = w\<lparr>calls := calls w @ [Lstat path]\<rparr>"
    by (simp add: shift_file_unchanged [OF assms(1,2)])
  have "\<not> fails (w\<lparr>calls := calls w @ [Lstat path]\<rparr>) (Lstat path)"
    and "inodes (w\<lparr>calls := calls w @ [Lstat path]\<rparr>) path = Some i"
    using assms(1,2) by simp_all
  from shift_file_unchanged [OF this] True show ?thesis
    unfolding first by blast
next
  case False
  then have ch: "shift_id (st_uid i) offset \<noteq> st_uid i \<or> shift_id (st_gid i) offset \<noteq> st_gid i"
    by blast
  have nn: "0 \<le> shift_id (st_uid i) offset" "0 \<le> shift_id (st_gid i) offset"
    using assms(3,4) by (simp_all add: shift_id_nonneg)
  have acc: "lchown_accepts (shift_id (st_uid i) offset)"
    "lchown_accepts (shift_id (st_gid i) offset)"
    using nn assms(7,8) by (simp_all add: lchown_accepts_def)
  have sets: "lchown_sets (st_uid i) (shift_id (st_uid i) offset) = shift_id (st_uid i) offset"
    "lchown_sets (st_gid i) (shift_id (st_gid i) offset) = shift_id (st_gid i) offset"
    using nn assms(7,8) by (simp_all add: lchown_sets_def)
  note eff = shift_file_lchown_ok [OF assms(1,2) ch assms(6) acc]
  let ?w1 = "snd (shift_file path offset w)"
  from eff(5) obtain i1 where i1: "inodes ?w1 path = Some i1"
    "st_uid i1 = shift_id (st_uid i) offset" "st_gid i1 = shift_id (st_gid i) offset"
    by (auto simp: owner_mode_def sets)
  have ok: "\<not> fails ?w1 (Lstat path)" using assms(1) by (simp add: eff(6))
  have "shift_id (st_uid i1) offset = st_uid i1" "shift_id (st_gid i1) offset = st_gid i1"
    using assms(3,4,5) by (auto simp: i1 shift_id_def)
  then show ?thesis by (rule shift_file_unchanged [OF ok i1(1)])
qed

lemma shift_file_second_run_negative_offset:
  "owner_mode (snd (shift_file ''/srv/app'' (- 400) example_world)) ''/srv/app'' =
     Some (600, 600, 36333)"
  "owner_mode (snd (shift_file ''/srv/app'' (- 400)
       (snd (shift_file ''/srv/app'' (- 400) example_world)))) ''/srv/app'' =
     Some (200, 200, 36333)"
  by code_simp+

text \<open>
  C5. When \<^verbatim>\<open>os.lstat\<close> succeeds and \<open>shift_id\<close> leaves both the owner and the
  group of the entry as they are, \<open>shift_file\<close> returns after the \<^verbatim>\<open>lstat\<close>: the
  only call it makes is that one, no entry changes (no ownership change, no mode
  change, no attribute written) and nothing is printed. The witness is a second run
  with the same offset on an entry that the first run has shifted.
\<close>

theorem shift_file_skips_unchanged_owner:
  assumes "\<not> fails w (Lstat path)" and "inodes w path = Some i"
    and "shift_id (st_uid i) offset = st_uid i" and "shift_id (st_gid i) offset = st_gid i"
  shows "shift_file path offset w = (None, w\<lparr>calls := calls w @ [Lstat path]\<rparr>) \<and>
         new_calls w (snd (shift_file path offset w)) = [Lstat path] \<and>
         inodes (snd (shift_file path offset w)) = inodes w \<and>
         stderr (snd (shift_file path offset w)) = stderr w \<and>
         stdout (snd (shift_file path offset w)) = stdout w"
  by (simp add: shift_file_unchanged [OF assms] new_calls_def)

theorem shift_file_skips_unchanged_owner_witness:
  "new_calls (snd (shift_file ''/srv/app'' 100000 example_world))
     (snd (shift_file ''/srv/app'' 100000 (snd (shift_file ''/srv/app'' 100000 example_world))))
     = [Lstat ''/srv/app''] \<and>
   inodes (snd (shift_file ''/srv/app'' 100000 (snd (shift_file ''/srv/app'' 100000 example_world))))
     = inodes (snd (shift_file ''/srv/app'' 100000 example_world))"
proof -
  let ?w1 = "snd (shift_file ''/srv/app'' 100000 example_world)"
  let ?i1 = "\<lparr>st_uid = 101000, st_gid = 101000, st_mode = 36333,
           xattrs = [(''user.note'', [1, 2]), (''system.posix_acl_access'', shifted_acl)]\<rparr>"
  have u: "shift_id (st_uid ?i1) 100000 = st_uid ?i1" "shift_id (st_gid ?i1) 100000 = st_gid ?i1"
    by (simp_all add: shift_id_def)
  from shift_file_skips_unchanged_owner [OF example_first_run(2) example_first_run(1) u]
  show ?thesis by blast
qed

text \<open>
  C6. For an entry whose ownership changes (\<^verbatim>\<open>os.lstat\<close> succeeds, some id moves,
  both shifted ids are in the range \<^verbatim>\<open>os.lchown\<close> accepts and the call succeeds):
  when it is not a symbolic link, the \<^verbatim>\<open>lchown\<close> is followed at once by
  \<^verbatim>\<open>os.chmod\<close> with the permission bits of the original mode (\<open>S_IMODE\<close>, no type
  bits), and when that call succeeds the entry ends with the owner and group the
  \<^verbatim>\<open>lchown\<close> has set and the original permission bits, whatever the kernel did to
  them on the change of ownership; when it is a symbolic link no \<^verbatim>\<open>chmod\<close> is made.
  The owner set is the shifted id, except that \<open>2^32 - 1\<close> leaves the owner as it is.
  The witness is the entry with mode \<open>0o6755\<close> owned by 1000:1000 under the offset
  100000: the change of ownership leaves \<open>0o755 = 493\<close>, the run ends with
  101000:101000 and \<open>0o6755 = 3565\<close>.
\<close>

theorem shift_file_restores_mode:
  assumes "\<not> fails w (Lstat path)" and "inodes w path = Some i"
    and "shift_id (st_uid i) offset \<noteq> st_uid i \<or> shift_id (st_gid i) offset \<noteq> st_gid i"
    and "lchown_accepts (shift_id (st_uid i) offset)"
    and "lchown_accepts (shift_id (st_gid i) offset)"
    and "\<not> fails w (Lchown path (shift_id (st_uid i) offset) (shift_id (st_gid i) offset))"
  shows "fst (shift_file path offset w) = None \<and>
         (\<not> S_ISLNK (st_mode i) \<longrightarrow>
            (\<exists>before after.
               new_calls w (snd (shift_file path offset w)) =
                 before @
                 [Lchown path (shift_id (st_uid i) offset) (shift_id (st_gid i) offset),
                  Chmod path (S_IMODE (st_mode i))] @ after) \<and>
            (\<not> fails w (Chmod path (S_IMODE (st_mode i))) \<longrightarrow>
               (\<exists>mode. owner_mode (snd (shift_file path offset w)) path =
                    Some (lchown_sets (st_uid i) (shift_id (st_uid i) offset),
                          lchown_sets (st_gid i) (shift_id (st_gid i) offset), mode) \<and>
                  S_IMODE mode = S_IMODE (st_mode i)))) \<and>
         (S_ISLNK (st_mode i) \<longrightarrow>
            (\<forall>mode. Chmod path mode \<notin> set (new_calls w (snd (shift_file path offset w)))) \<and>
            owner_mode (snd (shift_file path offset w)) path =
              Some (lchown_sets (st_uid i) (shift_id (st_uid i) offset),
                    lchown_sets (st_gid i) (shift_id (st_gid i) offset),
                    st_mode (chown_side_effect w i))) \<and>
         (0 \<le> shift_id (st_uid i) offset \<and> shift_id (st_uid i) offset < 4294967295 \<longrightarrow>
            lchown_sets (st_uid i) (shift_id (st_uid i) offset) = shift_id (st_uid i) offset) \<and>
         (0 \<le> shift_id (st_gid i) offset \<and> shift_id (st_gid i) offset < 4294967295 \<longrightarrow>
            lchown_sets (st_gid i) (shift_id (st_gid i) offset) = shift_id (st_gid i) offset)"
proof (intro conjI impI)
  note eff = shift_file_lchown_ok [OF assms(1,2,3,6,4,5)]
  let ?nu = "shift_id (st_uid i) offset" and ?ng = "shift_id (st_gid i) offset"
  let ?backup = "backup_of w path offset (xattr_names w path) []"
  show "fst (shift_file path offset w) = None" by (rule eff(1))
  {
    assume reg: "\<not> S_ISLNK (st_mode i)"
    have "new_calls w (snd (shift_file path offset w)) =
        ([Lstat path, Listxattr path] @ map (Getxattr path) (xattr_names w path)) @
        [Lchown path ?nu ?ng, Chmod path (S_IMODE (st_mode i))] @
        setxattr_calls path ?backup"
      using reg by (intro new_calls_append) (simp add: eff(2))
    then show "\<exists>before after.
        new_calls w (snd (shift_file path offset w)) =
          before @ [Lchown path ?nu ?ng, Chmod path (S_IMODE (st_mode i))] @ after"
      by blast
    assume "\<not> fails w (Chmod path (S_IMODE (st_mode i)))"
    then have "owner_mode (snd (shift_file path offset w)) path =
        Some (lchown_sets (st_uid i) ?nu, lchown_sets (st_gid i) ?ng,
              S_IFMT (st_mode (chown_side_effect w i)) OR S_IMODE (st_mode i))"
      using reg by (simp add: eff(5))
    then show "\<exists>mode. owner_mode (snd (shift_file path offset w)) path =
          Some (lchown_sets (st_uid i) ?nu, lchown_sets (st_gid i) ?ng, mode) \<and>
          S_IMODE mode = S_IMODE (st_mode i)"
      by (simp add: S_IMODE_chmod)
  }
  {
    assume lnk: "S_ISLNK (st_mode i)"
    have "new_calls w (snd (shift_file path offset w)) =
        [Lstat path, Listxattr path] @ map (Getxattr path) (xattr_names w path) @
        [Lchown path ?nu ?ng] @ setxattr_calls path ?backup"
      using lnk by (intro new_calls_append) (simp add: eff(2))
    then show "\<forall>mode. Chmod path mode \<notin> set (new_calls w (snd (shift_file path offset w)))"
      by (auto simp: setxattr_calls_def)
    show "owner_mode (snd (shift_file path offset w)) path =
        Some (lchown_sets (st_uid i) ?nu, lchown_sets (st_gid i) ?ng,
              st_mode (chown_side_effect w i))"
      using lnk by (simp add: eff(5))
  }
  {
    assume "0 \<le> ?nu \<and> ?nu < 4294967295"
    then show "lchown_sets (st_uid i) ?nu = ?nu" by (simp add: lchown_sets_def)
  }
  {
    assume "0 \<le> ?ng \<and> ?ng < 4294967295"
    then show "lchown_sets (st_gid i) ?ng = ?ng" by (simp add: lchown_sets_def)
  }
qed

theorem shift_file_restores_mode_witness:
  "S_IMODE (st_mode example_inode) = 3565 \<and>
   S_IMODE (st_mode (chown_side_effect example_world example_inode)) = 493 \<and>
   (\<exists>mode. owner_mode (snd (shift_file ''/srv/app'' 100000 example_world)) ''/srv/app'' =
              Some (101000, 101000, mode) \<and> S_IMODE mode = 3565) \<and>
   (\<exists>before after. new_calls example_world (snd (shift_file ''/srv/app'' 100000 example_world)) =
       before @ [Lchown ''/srv/app'' 101000 101000, Chmod ''/srv/app'' 3565] @ after) \<and>
   Chmod ''/srv/link'' 511 \<notin>
     set (new_calls example_world (snd (shift_file ''/srv/link'' 100000 example_world)))"
proof -
  have ch: "shift_id (st_uid example_inode) 100000 \<noteq> st_uid example_inode \<or>
            shift_id (st_gid example_inode) 100000 \<noteq> st_gid example_inode"
    by (simp add: example_inode_def shift_id_def)
  have ch': "shift_id (st_uid symlink_inode) 100000 \<noteq> st_uid symlink_inode \<or>
             shift_id (st_gid symlink_inode) 100000 \<noteq> st_gid symlink_inode"
    by (simp add: symlink_inode_def shift_id_def)
  note reg = shift_file_restores_mode
    [OF example_world_facts(1,2) ch example_world_facts(20,21) example_world_facts(10)]
  note lnk = shift_file_restores_mode
    [OF example_world_facts(11,12) ch' example_world_facts(22,23) example_world_facts(10)]
  have 1: "\<exists>mode. owner_mode (snd (shift_file ''/srv/app'' 100000 example_world)) ''/srv/app'' =
              Some (101000, 101000, mode) \<and> S_IMODE mode = 3565"
    using reg example_world_facts(8,10)
    by (simp add: example_world_facts(3,4,9,24,25))
  have 2: "\<exists>before after. new_calls example_world (snd (shift_file ''/srv/app'' 100000 example_world)) =
       before @ [Lchown ''/srv/app'' 101000 101000, Chmod ''/srv/app'' 3565] @ after"
    using reg example_world_facts(8) by (simp add: example_world_facts(3,4,9))
  have 3: "Chmod ''/srv/link'' 511 \<notin>
     set (new_calls example_world (snd (shift_file ''/srv/link'' 100000 example_world)))"
    using lnk example_world_facts(17) by blast
  from 1 2 3 show ?thesis by (simp add: example_world_facts(9,19))
qed

text \<open>
  C7, as amended. For an entry whose ownership changes (both shifted ids in the range
  \<^verbatim>\<open>os.lchown\<close> accepts, the call succeeding), with a successful listing of
  distinct attribute names: every listed attribute is read; the backup holds exactly
  the attributes whose read did not fail; the run goes on to the ownership change,
  the mode restoration and the restoring of every attribute of the backup; and the
  lines on standard error are the warnings of the restoring steps only: a failed read
  prints nothing.
\<close>

theorem shift_file_drops_unreadable_xattr:
  assumes "\<not> fails w (Lstat path)" and "inodes w path = Some i"
    and "shift_id (st_uid i) offset \<noteq> st_uid i \<or> shift_id (st_gid i) offset \<noteq> st_gid i"
    and "\<not> fails w (Listxattr path)" and "distinct (map fst (xattrs i))"
    and "lchown_accepts (shift_id (st_uid i) offset)"
    and "lchown_accepts (shift_id (st_gid i) offset)"
    and "\<not> fails w (Lchown path (shift_id (st_uid i) offset) (shift_id (st_gid i) offset))"
  shows "fst (shift_file path offset w) = None \<and>
         new_calls w (snd (shift_file path offset w)) =
           [Lstat path, Listxattr path] @
           map (Getxattr path) (map fst (xattrs i)) @
           [Lchown path (shift_id (st_uid i) offset) (shift_id (st_gid i) offset)] @
           (if S_ISLNK (st_mode i) then [] else [Chmod path (S_IMODE (st_mode i))]) @
           setxattr_calls path (kept_xattrs w path offset (xattrs i)) \<and>
         stderr (snd (shift_file path offset w)) =
           stderr w @
           (if \<not> S_ISLNK (st_mode i) \<and> fails w (Chmod path (S_IMODE (st_mode i)))
            then [Warning_mode path] else []) @
           setxattr_warnings w path (kept_xattrs w path offset (xattrs i)) \<and>
         stdout (snd (shift_file path offset w)) =
           stdout w @
           (if DEBUG w
            then [Shifted path (st_uid i) (st_gid i) (shift_id (st_uid i) offset)
                    (shift_id (st_gid i) offset) (st_mode i)]
            else [])"
proof -
  note eff = shift_file_lchown_ok [OF assms(1,2,3,8,6,7)]
  note names = backup_of_kept(1) [OF assms(4,2,5)]
  have kept: "backup_of w path offset (map fst (xattrs i)) [] =
      kept_xattrs w path offset (xattrs i)"
    using backup_of_kept(2) [OF assms(4,2,5), of offset] by (simp add: names)
  have "new_calls w (snd (shift_file path offset w)) =
           [Lstat path, Listxattr path] @
           map (Getxattr path) (map fst (xattrs i)) @
           [Lchown path (shift_id (st_uid i) offset) (shift_id (st_gid i) offset)] @
           (if S_ISLNK (st_mode i) then [] else [Chmod path (S_IMODE (st_mode i))]) @
           setxattr_calls path (kept_xattrs w path offset (xattrs i))"
    by (rule new_calls_append) (simp add: eff(2) names kept)
  then show ?thesis
    using eff(1,3,4) by (simp add: names kept)
qed

theorem shift_file_drops_unreadable_xattr_witness:
  "fails failing_world (Getxattr ''/srv/app'' ''user.note'') \<and>
   fst (shift_file ''/srv/app'' 100000 failing_world) = None \<and>
   new_calls failing_world (snd (shift_file ''/srv/app'' 100000 failing_world)) =
     [Lstat ''/srv/app'', Listxattr ''/srv/app'',
      Getxattr ''/srv/app'' ''user.note'', Getxattr ''/srv/app'' ''system.posix_acl_access'',
      Lchown ''/srv/app'' 101000 101000, Chmod ''/srv/app'' 3565,
      Setxattr ''/srv/app'' ''system.posix_acl_access'' shifted_acl] \<and>
   stderr (snd (shift_file ''/srv/app'' 100000 failing_world)) = []"
proof -
  have ch: "shift_id (st_uid example_inode) 100000 \<noteq> st_uid example_inode \<or>
            shift_id (st_gid example_inode) 100000 \<noteq> st_gid example_inode"
    by (simp add: example_inode_def shift_id_def)
  note t = shift_file_drops_unreadable_xattr
    [OF failing_world_facts(1,2) ch failing_world_facts(3,4) example_world_facts(20,21)
      failing_world_facts(5)]
  have n: "map fst (xattrs example_inode) = [''user.note'', ''system.posix_acl_access'']"
    by (simp add: example_inode_def)
  from t show ?thesis
    by (simp add: failing_world_kept failing_world_facts(6-11) example_world_facts(3,4,8,9) n
        setxattr_calls_def setxattr_warnings_def)
qed

text \<open>
  The claim promises a warning for a failed read. Here the read of \<^verbatim>\<open>user.note\<close>
  fails and the run ends with nothing on standard error and nothing on standard
  output.
\<close>

theorem shift_file_read_failure_silent_counterexample:
  "fails failing_world (Getxattr ''/srv/app'' ''user.note'') \<and>
   fst (shift_file ''/srv/app'' 100000 failing_world) = None \<and>
   stderr (snd (shift_file ''/srv/app'' 100000 failing_world)) = [] \<and>
   stdout (snd (shift_file ''/srv/app'' 100000 failing_world)) = []"
  by code_simp

section \<open>Properties of the traversal\<close>




























end
